theory Spec2Isabelle
  imports Complex_Main
begin

section \<open>Data model\<close>

text \<open>
  The repository resolves elevations for a batch of points from SRTM rasters
  (\<^verbatim>\<open>src/GetElevations.py\<close>). The geometry engine (geopandas, shapely), the data
  frames (pandas), the raster reader (rasterio) and the file system are libraries the code
  calls; they appear here as explicit parameters or as small list functions that compute
  what the calls compute on the data the code passes to them.
\<close>

text \<open>A point geometry; the code reads its \<^verbatim>\<open>.x\<close> and \<^verbatim>\<open>.y\<close>.\<close>

datatype point = Point (px: real) (py: real)

text \<open>
  A GeoDataFrame as far as the code looks at it: its reference-frame tag (an EPSG code)
  and its rows in order. The index of a frame is the default one, 0, 1, 2, ... (so a row's
  index is its position), as both loaders of \<^verbatim>\<open>Orchestrator._load_data\<close> produce it.
\<close>

record 'a geoframe =
  crs :: nat
  features :: "'a list"

text \<open>
  A row of the SRTM grid: the column \<^verbatim>\<open>id\<close> and the polygon. Every tile has an
  identifier (no missing value in the column of the grid).
\<close>

record ('id, 'g) tile =
  tile_id :: 'id
  tile_geometry :: 'g

text \<open>
  A row of the joined frame: the index of the point in \<^verbatim>\<open>coords\<close> (the column
  \<^verbatim>\<open>original_index\<close> after \<^verbatim>\<open>reset_index\<close> and \<^verbatim>\<open>rename\<close>), the
  point, and the column \<^verbatim>\<open>id\<close>, which is NaN (here \<open>None\<close>) for a point no polygon
  contains.
\<close>

record 'id joined_row =
  original_index :: nat
  row_geometry :: point
  row_id :: "'id option"

text \<open>The exceptions of the modelled code.\<close>

datatype error =
  FileNotFoundError string
  | IndexError

text \<open>
  What a run does besides returning: the two \<^verbatim>\<open>print\<close> diagnostics and every
  sampling of a raster (\<^verbatim>\<open>rasterio.open\<close> of a path followed by
  \<^verbatim>\<open>value_from_src\<close> on a coordinate batch), in the order they happen.
\<close>

datatype event =
  Warning_unmatched
  | Raster_not_found string
  | Sampled string "(real \<times> real) list"

text \<open>
  The world outside the program: \<^verbatim>\<open>os.path.isdir\<close>, \<^verbatim>\<open>os.path.exists\<close>,
  \<^verbatim>\<open>os.path.join\<close>, the rasters (what \<^verbatim>\<open>src.sample(coords)\<close> yields for the
  dataset opened at a path: a sequence of arrays of band values), and how the f-string of
  the loop formats a group key. The key is a value of the column \<^verbatim>\<open>id\<close> of the joined
  frame, not of the grid: when that column holds a missing value, pandas stores a column
  of integers as floats, and the key of tile 12 is formatted \<^verbatim>\<open>12.0\<close>; a column of
  strings is formatted the same either way. The first argument of \<open>format_id\<close> says
  whether the joined column holds a missing value.
\<close>

record ('id, 'v) world =
  path_isdir :: "string \<Rightarrow> bool"
  path_exists :: "string \<Rightarrow> bool"
  path_join :: "string \<Rightarrow> string \<Rightarrow> string"
  dataset_sample :: "string \<Rightarrow> (real \<times> real) list \<Rightarrow> 'v list list"
  format_id :: "bool \<Rightarrow> 'id \<Rightarrow> string"

text \<open>The object \<^verbatim>\<open>GetElevations\<close>: the fields \<^verbatim>\<open>__init__\<close> sets.\<close>

record ('id, 'g) get_elevations =
  srtm_reference :: "('id, 'g) tile geoframe"
  images_folder :: string
  crs_degrees :: nat
  coords :: "point geoframe"
  is_dir :: bool

section \<open>Library calls\<close>

text \<open>
  \<^verbatim>\<open>gpd.sjoin(coords, srtm_reference, how="left", predicate="within")\<close>: one row for
  every pair of a point and a polygon that contains it, one row with a missing right side
  for a point that no polygon contains; rows ordered by the point's index and, for one
  point, by the polygon's position in the grid. The reference-frame tags of the two frames
  are not compared in any way that changes the rows or stops the join (geopandas issues a
  Python warning when they differ and goes on). The containment test itself is the
  parameter \<open>is_within\<close>.
\<close>

definition matches :: "(point \<Rightarrow> 'g \<Rightarrow> bool) \<Rightarrow> ('id, 'g) tile list \<Rightarrow> point \<Rightarrow> ('id, 'g) tile list" where
  "matches is_within tiles p = filter (\<lambda>t. is_within p (tile_geometry t)) tiles"

definition join_point :: "(point \<Rightarrow> 'g \<Rightarrow> bool) \<Rightarrow> ('id, 'g) tile list \<Rightarrow> nat \<times> point \<Rightarrow> 'id joined_row list" where
  "join_point is_within tiles ip =
     (case matches is_within tiles (snd ip) of
        [] \<Rightarrow> [\<lparr>original_index = fst ip, row_geometry = snd ip, row_id = None\<rparr>]
      | ms \<Rightarrow> map (\<lambda>t. \<lparr>original_index = fst ip, row_geometry = snd ip, row_id = Some (tile_id t)\<rparr>) ms)"

definition sjoin :: "(point \<Rightarrow> 'g \<Rightarrow> bool) \<Rightarrow> point geoframe \<Rightarrow> ('id, 'g) tile geoframe \<Rightarrow> 'id joined_row list" where
  "sjoin is_within left_df right_df =
     concat (map (join_point is_within (features right_df)) (enumerate 0 (features left_df)))"

text \<open>
  \<^verbatim>\<open>joined.groupby("id")\<close>, iterated: the distinct identifiers in ascending order, each
  with its rows in the order of the frame. Rows with a missing identifier belong to no
  group (pandas drops NaN keys), so the test \<^verbatim>\<open>pd.isna(idx)\<close> of the loop never
  fires.
\<close>

definition groupby :: "('id::linorder) joined_row list \<Rightarrow> ('id \<times> 'id joined_row list) list" where
  "groupby joined =
     map (\<lambda>k. (k, filter (\<lambda>r. row_id r = Some k) joined))
         (sort (remdups (List.map_filter row_id joined)))"

section \<open>GetElevations\<close>

text \<open>\<^verbatim>\<open>float(val[0])\<close>: the first band of one sampled array; an empty array raises.\<close>

fun first_band :: "'v list \<Rightarrow> error + 'v" where
  "first_band [] = Inl IndexError"
| "first_band (v # _) = Inr v"

text \<open>The list comprehension of \<^verbatim>\<open>value_from_src\<close> over the sampled arrays.\<close>

fun first_bands :: "'v list list \<Rightarrow> error + 'v list" where
  "first_bands [] = Inr []"
| "first_bands (val # rest) =
     (case first_band val of
        Inl e \<Rightarrow> Inl e
      | Inr v \<Rightarrow> (case first_bands rest of Inl e \<Rightarrow> Inl e | Inr vs \<Rightarrow> Inr (v # vs)))"

definition value_from_src :: "(real \<times> real) list \<Rightarrow> ((real \<times> real) list \<Rightarrow> 'v list list) \<Rightarrow> error + 'v list" where
  "value_from_src coords_list src = first_bands (src coords_list)"

text \<open>
  The inner loop of \<^verbatim>\<open>_process_directory\<close>,
  \<^verbatim>\<open>for orig_idx, val in zip(...): elevations[orig_idx] = val\<close>; a list assignment
  past the end raises.
\<close>

fun assign_values :: "(nat \<times> 'v) list \<Rightarrow> 'v option list \<Rightarrow> error + 'v option list" where
  "assign_values [] elevations = Inr elevations"
| "assign_values ((orig_idx, val) # rest) elevations =
     (if orig_idx < length elevations
      then assign_values rest (elevations[orig_idx := Some val])
      else Inl IndexError)"

definition coords_list_of :: "point list \<Rightarrow> (real \<times> real) list" where
  "coords_list_of geoms = map (\<lambda>geom. (px geom, py geom)) geoms"

text \<open>\<^verbatim>\<open>joined["id"].isna().any()\<close>: some row of the joined frame has no identifier.\<close>

definition has_missing_id :: "'id joined_row list \<Rightarrow> bool" where
  "has_missing_id joined = (None \<in> set (map row_id joined))"

text \<open>
  \<^verbatim>\<open>os.path.join(self.images_folder, f"{idx}.gpkg")\<close> for a group key \<open>idx\<close> of a
  joined frame whose column \<^verbatim>\<open>id\<close> holds a missing value (\<open>upcast\<close>) or not. With
  \<open>upcast = False\<close> this is the path of the tile's raster by the naming convention.
\<close>

definition raster_path_of :: "('id, 'v) world \<Rightarrow> string \<Rightarrow> bool \<Rightarrow> 'id \<Rightarrow> string" where
  "raster_path_of w folder upcast idx = path_join w folder (format_id w upcast idx @ ''.gpkg'')"

text \<open>
  One pass of the loop over the groups: the events of the pass and the list
  \<^verbatim>\<open>elevations\<close> after it, or the exception that ends the run.
\<close>

definition process_group ::
  "('id, 'v) world \<Rightarrow> string \<Rightarrow> bool \<Rightarrow> 'id \<times> 'id joined_row list \<Rightarrow> 'v option list
     \<Rightarrow> event list \<times> (error + 'v option list)" where
  "process_group w folder upcast g elevations =
     (let raster_path = raster_path_of w folder upcast (fst g) in
      if \<not> path_exists w raster_path then ([Raster_not_found raster_path], Inr elevations)
      else
        let coords_list = coords_list_of (map row_geometry (snd g)) in
        ([Sampled raster_path coords_list],
         case value_from_src coords_list (dataset_sample w raster_path) of
           Inl e \<Rightarrow> Inl e
         | Inr vals \<Rightarrow> assign_values (zip (map original_index (snd g)) vals) elevations))"

fun process_groups ::
  "('id, 'v) world \<Rightarrow> string \<Rightarrow> bool \<Rightarrow> ('id \<times> 'id joined_row list) list \<Rightarrow> 'v option list
     \<Rightarrow> event list \<times> (error + 'v option list)" where
  "process_groups w folder upcast [] elevations = ([], Inr elevations)"
| "process_groups w folder upcast (g # gs) elevations =
     (case process_group w folder upcast g elevations of
        (evs, Inl e) \<Rightarrow> (evs, Inl e)
      | (evs, Inr elevations') \<Rightarrow>
          (case process_groups w folder upcast gs elevations' of
             (evs', r) \<Rightarrow> (evs @ evs', r)))"

definition process_directory ::
  "('id::linorder, 'v) world \<Rightarrow> (point \<Rightarrow> 'g \<Rightarrow> bool) \<Rightarrow> ('id, 'g) get_elevations
     \<Rightarrow> event list \<times> (error + 'v option list)" where
  "process_directory w is_within self =
     (let joined = sjoin is_within (coords self) (srtm_reference self);
          warned = (if has_missing_id joined then [Warning_unmatched] else []);
          elevations = replicate (length joined) None
      in case process_groups w (images_folder self) (has_missing_id joined) (groupby joined)
                elevations of
           (evs, r) \<Rightarrow> (warned @ evs, r))"

definition process_single_raster ::
  "('id, 'v) world \<Rightarrow> ('id, 'g) get_elevations \<Rightarrow> event list \<times> (error + 'v option list)" where
  "process_single_raster w self =
     (if \<not> path_exists w (images_folder self)
      then ([], Inl (FileNotFoundError (''Raster file not found: '' @ images_folder self)))
      else
        let coords_list = coords_list_of (features (coords self)) in
        ([Sampled (images_folder self) coords_list],
         case value_from_src coords_list (dataset_sample w (images_folder self)) of
           Inl e \<Rightarrow> Inl e
         | Inr values \<Rightarrow> Inr (map Some values)))"

definition init ::
  "('id, 'v) world \<Rightarrow> ('id, 'g) tile geoframe \<Rightarrow> point geoframe \<Rightarrow> string \<Rightarrow> ('id, 'g) get_elevations" where
  "init w srtm cs folder =
     \<lparr>srtm_reference = srtm, images_folder = folder, crs_degrees = 4326, coords = cs,
      is_dir = path_isdir w folder\<rparr>"

definition get ::
  "('id::linorder, 'v) world \<Rightarrow> (point \<Rightarrow> 'g \<Rightarrow> bool) \<Rightarrow> ('id, 'g) get_elevations
     \<Rightarrow> event list \<times> (error + 'v option list)" where
  "get w is_within self =
     (if is_dir self then process_directory w is_within self else process_single_raster w self)"

section \<open>LoadGeo\<close>

text \<open>
  \<^verbatim>\<open>LoadGeo\<close> (\<^verbatim>\<open>src/LoadGeo.py\<close>): the fields of the object, \<^verbatim>\<open>find_utm\<close> and
  \<^verbatim>\<open>to_crs\<close>. What geopandas and pyproj compute is taken as parameters: whether a
  reference frame is geographic (\<^verbatim>\<open>file.crs.is_geographic\<close>), the UTM frame of a data
  frame (\<^verbatim>\<open>estimate_utm_crs\<close>), and the reprojection \<^verbatim>\<open>file.to_crs(crs)\<close>. Every
  frame carries a reference frame (for one without, \<^verbatim>\<open>file.crs\<close> raises).
\<close>

record load_geo =
  lg_type :: "string option"
  file_path :: string
  crs_degress :: nat

text \<open>
  \<^verbatim>\<open>find_utm\<close> on a data frame, which is how \<^verbatim>\<open>to_crs\<close> calls it (given a tuple it
  first wraps the point into a frame of one row).
\<close>

definition find_utm :: "('a geoframe \<Rightarrow> nat) \<Rightarrow> 'a geoframe \<Rightarrow> nat" where
  "find_utm estimate_utm_crs point_gframe = estimate_utm_crs point_gframe"

definition to_crs ::
  "(nat \<Rightarrow> bool) \<Rightarrow> ('a geoframe \<Rightarrow> nat) \<Rightarrow> (nat \<Rightarrow> 'a geoframe \<Rightarrow> 'a geoframe)
     \<Rightarrow> load_geo \<Rightarrow> 'a geoframe \<Rightarrow> string \<Rightarrow> 'a geoframe" where
  "to_crs geographic estimate_utm_crs reproject self file crs_type =
     (if lg_type self = Some ''vector'' then
        (let is_geographic = geographic (crs file) in
         if crs_type = ''degress'' \<and> \<not> is_geographic then reproject (crs_degress self) file
         else if crs_type = ''meters'' \<and> is_geographic
         then (let crs_utm = find_utm estimate_utm_crs file in reproject crs_utm file)
         else file)
      else file)"

section \<open>Derived notions\<close>

text \<open>
  The loop over the groups, read off as data: one assignment to \<^verbatim>\<open>elevations\<close>, the
  coordinate batch of a group, and what one pass emits and writes when no exception ends
  it. The lemmas below relate them to \<open>process_group\<close> and \<open>process_groups\<close>.
\<close>

definition store :: "nat \<times> 'v \<Rightarrow> 'v option list \<Rightarrow> 'v option list" where
  "store iv el = el[fst iv := Some (snd iv)]"

definition group_coords :: "'id \<times> 'id joined_row list \<Rightarrow> (real \<times> real) list" where
  "group_coords g = coords_list_of (map row_geometry (snd g))"

definition group_events ::
  "('id, 'v) world \<Rightarrow> string \<Rightarrow> bool \<Rightarrow> 'id \<times> 'id joined_row list \<Rightarrow> event list" where
  "group_events w folder u g =
     (if path_exists w (raster_path_of w folder u (fst g))
      then [Sampled (raster_path_of w folder u (fst g)) (group_coords g)]
      else [Raster_not_found (raster_path_of w folder u (fst g))])"

definition group_writes ::
  "('id, 'v) world \<Rightarrow> string \<Rightarrow> bool \<Rightarrow> 'id \<times> 'id joined_row list \<Rightarrow> (nat \<times> 'v) list" where
  "group_writes w folder u g =
     (if path_exists w (raster_path_of w folder u (fst g))
      then zip (map original_index (snd g))
               (map hd (dataset_sample w (raster_path_of w folder u (fst g)) (group_coords g)))
      else [])"

definition unmatched_warning :: "'id joined_row list \<Rightarrow> event list" where
  "unmatched_warning joined = (if has_missing_id joined then [Warning_unmatched] else [])"

text \<open>The path a run over a directory derives for a group key.\<close>

definition directory_path ::
  "('id, 'v) world \<Rightarrow> (point \<Rightarrow> 'g \<Rightarrow> bool) \<Rightarrow> ('id, 'g) get_elevations \<Rightarrow> 'id \<Rightarrow> string" where
  "directory_path w is_within self idx =
     raster_path_of w (images_folder self)
       (has_missing_id (sjoin is_within (coords self) (srtm_reference self))) idx"

definition directory_events ::
  "('id::linorder, 'v) world \<Rightarrow> (point \<Rightarrow> 'g \<Rightarrow> bool) \<Rightarrow> ('id, 'g) get_elevations \<Rightarrow> event list" where
  "directory_events w is_within self =
     (let joined = sjoin is_within (coords self) (srtm_reference self)
      in unmatched_warning joined
         @ concat (map (group_events w (images_folder self) (has_missing_id joined)) (groupby joined)))"

definition directory_writes ::
  "('id::linorder, 'v) world \<Rightarrow> (point \<Rightarrow> 'g \<Rightarrow> bool) \<Rightarrow> ('id, 'g) get_elevations \<Rightarrow> (nat \<times> 'v) list" where
  "directory_writes w is_within self =
     concat (map (group_writes w (images_folder self)
                    (has_missing_id (sjoin is_within (coords self) (srtm_reference self))))
                 (groupby (sjoin is_within (coords self) (srtm_reference self))))"

fun is_sampled :: "event \<Rightarrow> bool" where
  "is_sampled (Sampled _ _) = True"
| "is_sampled _ = False"

section \<open>A small world to run the code on\<close>

text \<open>
  A folder \<^verbatim>\<open>tiles\<close> holding the rasters of tiles 1 and 2 (that of tile 3 is missing),
  a single raster \<^verbatim>\<open>dem.tif\<close>, and rasters of one band whose value is 100 on tile 1,
  150 on \<^verbatim>\<open>dem.tif\<close> west of longitude 1, and 200 elsewhere. Polygons are boxes \<open>(lon_min, lon_max, lat_min, lat_max)\<close>. The
  identifiers of \<open>demo_world\<close> are formatted the same whether or not the joined column
  holds a missing value (a column of the strings 1, 2, 3); those of \<open>integer_id_world\<close>
  are integers, formatted as floats once it does.
\<close>

definition demo_world :: "(nat, int) world" where
  "demo_world =
     \<lparr>path_isdir = (\<lambda>p. p = ''tiles''),
      path_exists = (\<lambda>p. p \<in> {''tiles'', ''tiles/1.gpkg'', ''tiles/2.gpkg'', ''dem.tif''}),
      path_join = (\<lambda>a b. a @ ''/'' @ b),
      dataset_sample =
        (\<lambda>p cl. map (\<lambda>c. [if p = ''tiles/1.gpkg'' then 100
                               else if p = ''dem.tif'' \<and> fst c < 1 then 150 else 200]) cl),
      format_id = (\<lambda>upcast n. if n = 1 then ''1'' else if n = 2 then ''2'' else ''3'')\<rparr>"

definition integer_id_world :: "(nat, int) world" where
  "integer_id_world =
     demo_world\<lparr>format_id :=
       (\<lambda>upcast n. format_id demo_world False n @ (if upcast then ''.0'' else []))\<rparr>"

definition in_box :: "point \<Rightarrow> real \<times> real \<times> real \<times> real \<Rightarrow> bool" where
  "in_box p b =
     (case b of (lon_min, lon_max, lat_min, lat_max) \<Rightarrow>
        lon_min < px p \<and> px p < lon_max \<and> lat_min < py p \<and> py p < lat_max)"

definition demo_grid :: "(nat, real \<times> real \<times> real \<times> real) tile geoframe" where
  "demo_grid =
     \<lparr>crs = 4326,
      features = [\<lparr>tile_id = 1, tile_geometry = (0, 1, 0, 1)\<rparr>,
                  \<lparr>tile_id = 2, tile_geometry = (1, 2, 0, 1)\<rparr>,
                  \<lparr>tile_id = 3, tile_geometry = (2, 3, 0, 1)\<rparr>]\<rparr>"

definition empty_grid :: "(nat, real \<times> real \<times> real \<times> real) tile geoframe" where
  "empty_grid = \<lparr>crs = 4326, features = []\<rparr>"

definition no_points :: "point geoframe" where
  "no_points = \<lparr>crs = 4326, features = []\<rparr>"

definition two_points :: "point geoframe" where
  "two_points = \<lparr>crs = 4326, features = [Point (3/2) (1/2), Point (1/2) (1/2)]\<rparr>"

text \<open>
  Inputs for the runs below: points inside tiles 2 and 1 followed by one outside the
  grid; the three points of the scenario with a missing raster; tile 3; a grid of two
  overlapping tiles with a point in their intersection; the grid tagged with a UTM zone.
\<close>

definition mixed_points :: "point geoframe" where
  "mixed_points = \<lparr>crs = 4326, features = [Point (3/2) (1/2), Point (1/2) (1/2), Point 5 5]\<rparr>"

definition scenario_points :: "point geoframe" where
  "scenario_points = \<lparr>crs = 4326, features = [Point (1/2) (1/2), Point (5/2) (1/2), Point (9/4) (1/4)]\<rparr>"

definition tile3 :: "(nat, real \<times> real \<times> real \<times> real) tile" where
  "tile3 = \<lparr>tile_id = 3, tile_geometry = (2, 3, 0, 1)\<rparr>"

definition overlap_grid :: "(nat, real \<times> real \<times> real \<times> real) tile geoframe" where
  "overlap_grid =
     \<lparr>crs = 4326,
      features = [\<lparr>tile_id = 1, tile_geometry = (0, 2, 0, 1)\<rparr>,
                  \<lparr>tile_id = 2, tile_geometry = (1, 3, 0, 1)\<rparr>]\<rparr>"

definition overlap_missing_grid :: "(nat, real \<times> real \<times> real \<times> real) tile geoframe" where
  "overlap_missing_grid =
     \<lparr>crs = 4326,
      features = [\<lparr>tile_id = 1, tile_geometry = (0, 2, 0, 1)\<rparr>,
                  \<lparr>tile_id = 3, tile_geometry = (1, 3, 0, 1)\<rparr>]\<rparr>"

definition one_point :: "point geoframe" where
  "one_point = \<lparr>crs = 4326, features = [Point (3/2) (1/2)]\<rparr>"

definition utm_grid :: "(nat, real \<times> real \<times> real \<times> real) tile geoframe" where
  "utm_grid = demo_grid\<lparr>crs := 32723\<rparr>"

definition two_points_then_nothing :: "point geoframe" where
  "two_points_then_nothing = \<lparr>crs = 4326, features = [Point (3/2) (1/2), Point 9 9]\<rparr>"

section \<open>Sampling and assignment\<close>

lemma first_bands_ok: "[] \<notin> set xs \<Longrightarrow> first_bands xs = Inr (map hd xs)"
proof (induction xs)
  case Nil
  then show ?case by simp
next
  case (Cons a xs)
  then obtain v vs where "a = v # vs" by (cases a) auto
  with Cons show ?case by simp
qed

lemma first_bands_Inr: "first_bands xs = Inr vs \<Longrightarrow> vs = map hd xs"
proof (induction xs arbitrary: vs)
  case Nil
  then show ?case by simp
next
  case (Cons a xs)
  then show ?case by (cases a) (auto split: sum.splits)
qed

lemma length_fold_store [simp]: "length (fold store ws el) = length el"
  by (induction ws arbitrary: el) (auto simp: store_def)

lemma assign_values_ok:
  "\<forall>i\<in>fst ` set ws. i < length el \<Longrightarrow> assign_values ws el = Inr (fold store ws el)"
  by (induction ws el rule: assign_values.induct) (auto simp: store_def)

lemma assign_values_Inr:
  "assign_values ws el = Inr el' \<Longrightarrow> el' = fold store ws el"
  by (induction ws el rule: assign_values.induct) (auto simp: store_def split: if_splits)

lemma fold_store_nth:
  "i < length el \<Longrightarrow>
   fold store ws el ! i = (case map_of (rev ws) i of None \<Rightarrow> el ! i | Some v \<Rightarrow> Some v)"
proof (induction ws arbitrary: el)
  case Nil
  then show ?case by simp
next
  case (Cons a ws)
  obtain j v where a: "a = (j, v)" by (cases a)
  have "i < length (store a el)" using Cons.prems by (simp add: store_def)
  from Cons.IH [OF this] show ?case using Cons.prems
    by (auto simp: a store_def map_add_def split: option.splits)
qed

lemma process_group_Inr:
  assumes "process_group w folder u g el = (evs, Inr el')"
  shows "evs = group_events w folder u g \<and> el' = fold store (group_writes w folder u g) el"
proof (cases "path_exists w (raster_path_of w folder u (fst g))")
  case False
  with assms show ?thesis
    by (simp add: process_group_def group_events_def group_writes_def)
next
  case True
  let ?p = "raster_path_of w folder u (fst g)"
  from assms True obtain vals where
    v: "first_bands (dataset_sample w ?p (group_coords g)) = Inr vals"
    and a: "assign_values (zip (map original_index (snd g)) vals) el = Inr el'"
    and e: "evs = [Sampled ?p (group_coords g)]"
    by (auto simp: process_group_def Let_def value_from_src_def group_coords_def
        split: sum.splits)
  from first_bands_Inr [OF v] assign_values_Inr [OF a] e True show ?thesis
    by (simp add: group_events_def group_writes_def)
qed

lemma process_group_ok:
  assumes "[] \<notin> set (dataset_sample w (raster_path_of w folder u (fst g)) (group_coords g))"
    and "\<forall>r\<in>set (snd g). original_index r < length el"
  shows "process_group w folder u g el
         = (group_events w folder u g, Inr (fold store (group_writes w folder u g) el))"
proof (cases "path_exists w (raster_path_of w folder u (fst g))")
  case False
  then show ?thesis
    by (simp add: process_group_def group_events_def group_writes_def)
next
  case True
  let ?p = "raster_path_of w folder u (fst g)"
  let ?vals = "map hd (dataset_sample w ?p (group_coords g))"
  have "\<forall>i\<in>fst ` set (zip (map original_index (snd g)) ?vals). i < length el"
    using assms(2) by (auto dest!: set_zip_leftD)
  from assign_values_ok [OF this] first_bands_ok [OF assms(1)] True show ?thesis
    by (simp add: process_group_def Let_def value_from_src_def group_coords_def
        group_events_def group_writes_def)
qed

lemma process_group_events:
  "set (fst (process_group w folder u g el)) \<subseteq> set (group_events w folder u g)"
  by (simp add: process_group_def Let_def group_events_def group_coords_def)

lemma process_groups_events:
  "set (fst (process_groups w folder u gs el)) \<subseteq> (\<Union>g\<in>set gs. set (group_events w folder u g))"
proof (induction gs arbitrary: el)
  case Nil
  then show ?case by simp
next
  case (Cons g gs)
  obtain evs r where pg: "process_group w folder u g el = (evs, r)" by (cases "process_group w folder u g el")
  have sub: "set evs \<subseteq> set (group_events w folder u g)"
    using process_group_events [of w folder u g el] pg by simp
  show ?case
  proof (cases r)
    case (Inl e)
    with pg sub show ?thesis by auto
  next
    case (Inr el')
    obtain evs' r' where pgs: "process_groups w folder u gs el' = (evs', r')"
      by (cases "process_groups w folder u gs el'")
    have "set evs' \<subseteq> (\<Union>g\<in>set gs. set (group_events w folder u g))"
      using Cons.IH [of el'] pgs by simp
    with pg Inr pgs sub show ?thesis by auto
  qed
qed

lemma process_groups_Inr:
  "process_groups w folder u gs el = (evs, Inr el') \<Longrightarrow>
   evs = concat (map (group_events w folder u) gs)
   \<and> el' = fold store (concat (map (group_writes w folder u) gs)) el"
proof (induction gs arbitrary: el evs)
  case Nil
  then show ?case by simp
next
  case (Cons g gs)
  from Cons.prems obtain e1 el1 e2 where
    pg: "process_group w folder u g el = (e1, Inr el1)"
    and pgs: "process_groups w folder u gs el1 = (e2, Inr el')"
    and evs: "evs = e1 @ e2"
    by (auto split: prod.splits sum.splits)
  from process_group_Inr [OF pg] Cons.IH [OF pgs] evs show ?case by simp
qed

lemma process_groups_ok:
  assumes "\<forall>g\<in>set gs. [] \<notin> set (dataset_sample w (raster_path_of w folder u (fst g)) (group_coords g))"
    and "\<forall>g\<in>set gs. \<forall>r\<in>set (snd g). original_index r < length el"
  shows "process_groups w folder u gs el
         = (concat (map (group_events w folder u) gs),
            Inr (fold store (concat (map (group_writes w folder u) gs)) el))"
  using assms
proof (induction gs arbitrary: el)
  case Nil
  then show ?case by simp
next
  case (Cons g gs)
  have 1: "process_group w folder u g el
         = (group_events w folder u g, Inr (fold store (group_writes w folder u g) el))"
    using Cons.prems by (intro process_group_ok) auto
  have 2: "process_groups w folder u gs (fold store (group_writes w folder u g) el)
         = (concat (map (group_events w folder u) gs),
            Inr (fold store (concat (map (group_writes w folder u) gs)) (fold store (group_writes w folder u g) el)))"
    using Cons.prems by (intro Cons.IH) auto
  show ?case by (simp add: 1 2)
qed

section \<open>The join and the groups\<close>

lemma in_join_point:
  "r \<in> set (join_point W ts (i, p)) \<longleftrightarrow>
     original_index r = i \<and> row_geometry r = p \<and>
     (if matches W ts p = [] then row_id r = None
      else row_id r \<in> Some ` tile_id ` set (matches W ts p))"
  by (cases r) (auto simp: join_point_def split: list.splits)

lemma length_join_point:
  "length (join_point W ts ip) = max 1 (length (matches W ts (snd ip)))"
  by (simp add: join_point_def split: list.splits)

lemma in_sjoin:
  "r \<in> set (sjoin W L R) \<longleftrightarrow>
     (\<exists>i<length (features L). r \<in> set (join_point W (features R) (i, features L ! i)))"
  by (force simp: sjoin_def in_set_enumerate_eq)

lemma sjoin_row:
  assumes "r \<in> set (sjoin W L R)"
  shows "original_index r < length (features L)"
    and "row_geometry r = features L ! original_index r"
    and "row_id r = None \<Longrightarrow> matches W (features R) (row_geometry r) = []"
    and "row_id r = Some k \<Longrightarrow> \<exists>t\<in>set (matches W (features R) (row_geometry r)). tile_id t = k"
  using assms by (auto simp: in_sjoin in_join_point split: if_splits)

lemma length_concat_ge:
  "(\<And>x. x \<in> set xs \<Longrightarrow> 1 \<le> length (f x)) \<Longrightarrow> length xs \<le> length (concat (map f xs))"
proof (induction xs)
  case Nil
  then show ?case by simp
next
  case (Cons a xs)
  have "1 \<le> length (f a)" using Cons.prems by simp
  moreover have "length xs \<le> length (concat (map f xs))" using Cons by simp
  ultimately show ?case by simp
qed

lemma length_concat_eq:
  "(\<And>x. x \<in> set xs \<Longrightarrow> length (f x) = 1) \<Longrightarrow> length (concat (map f xs)) = length xs"
  by (induction xs) auto

lemma length_sjoin_ge: "length (features L) \<le> length (sjoin W L R)"
proof -
  have "length (enumerate 0 (features L)) \<le> length (sjoin W L R)"
    unfolding sjoin_def by (rule length_concat_ge) (simp add: length_join_point)
  then show ?thesis by simp
qed

lemma length_sjoin_eq:
  assumes "\<forall>p\<in>set (features L). length (matches W (features R) p) \<le> 1"
  shows "length (sjoin W L R) = length (features L)"
proof -
  have "length (sjoin W L R) = length (enumerate 0 (features L))"
    unfolding sjoin_def
  proof (rule length_concat_eq)
    fix x assume "x \<in> set (enumerate 0 (features L))"
    then have "fst x < length (features L)" and "features L ! fst x = snd x"
      by (simp_all add: in_set_enumerate_eq)
    then have "snd x \<in> set (features L)"
      using nth_mem [of "fst x" "features L"] by simp
    with assms have "length (matches W (features R) (snd x)) \<le> 1" by blast
    then show "length (join_point W (features R) x) = 1"
      by (simp add: length_join_point)
  qed
  then show ?thesis by simp
qed

lemma unmatched_in_sjoin:
  "None \<in> set (map row_id (sjoin W L R)) \<longleftrightarrow> (\<exists>p\<in>set (features L). matches W (features R) p = [])"
proof
  assume "None \<in> set (map row_id (sjoin W L R))"
  then obtain r where r: "r \<in> set (sjoin W L R)" "row_id r = None" by force
  from sjoin_row(1,2,3) [OF r(1)] r(2) show "\<exists>p\<in>set (features L). matches W (features R) p = []"
    by (metis nth_mem)
next
  assume "\<exists>p\<in>set (features L). matches W (features R) p = []"
  then obtain i where i: "i < length (features L)" "matches W (features R) (features L ! i) = []"
    by (auto simp: in_set_conv_nth)
  let ?r = "\<lparr>original_index = i, row_geometry = features L ! i, row_id = (None :: 'c option)\<rparr>"
  have "?r \<in> set (sjoin W L R)" using i by (auto simp: in_sjoin in_join_point)
  then have "row_id ?r \<in> row_id ` set (sjoin W L R)" by (rule imageI)
  then show "None \<in> set (map row_id (sjoin W L R))" by simp
qed

lemma has_missing_id_sjoin:
  "has_missing_id (sjoin W L R) \<longleftrightarrow> (\<exists>p\<in>set (features L). matches W (features R) p = [])"
  unfolding has_missing_id_def by (rule unmatched_in_sjoin)

lemma set_map_filter_row: "set (List.map_filter f xs) = {y. Some y \<in> f ` set xs}"
proof (induction xs)
  case Nil
  then show ?case by simp
next
  case (Cons a xs)
  then show ?case by (cases "f a") (auto simp: image_iff)
qed

lemma groupby_keys:
  "set (map fst (groupby J)) = {k. Some k \<in> row_id ` set J}"
proof -
  have "map fst (groupby J) = sort (remdups (List.map_filter row_id J))"
    by (simp add: groupby_def comp_def)
  then have "set (map fst (groupby J)) = set (List.map_filter row_id J)"
    by simp
  then show ?thesis by (simp only: set_map_filter_row)
qed

lemma in_groupby:
  "g \<in> set (groupby J) \<longleftrightarrow>
     Some (fst g) \<in> row_id ` set J \<and> snd g = filter (\<lambda>r. row_id r = Some (fst g)) J"
proof -
  have "set (groupby J)
        = (\<lambda>k. (k, filter (\<lambda>r. row_id r = Some k) J)) ` set (List.map_filter row_id J)"
    by (simp add: groupby_def)
  also have "\<dots> = (\<lambda>k. (k, filter (\<lambda>r. row_id r = Some k) J)) ` {k. Some k \<in> row_id ` set J}"
    by (simp only: set_map_filter_row)
  finally have eq: "set (groupby J)
        = (\<lambda>k. (k, filter (\<lambda>r. row_id r = Some k) J)) ` {k. Some k \<in> row_id ` set J}" .
  show ?thesis
  proof
    assume "g \<in> set (groupby J)"
    then obtain k where "Some k \<in> row_id ` set J" "g = (k, filter (\<lambda>r. row_id r = Some k) J)"
      unfolding eq by blast
    then show "Some (fst g) \<in> row_id ` set J \<and> snd g = filter (\<lambda>r. row_id r = Some (fst g)) J"
      by simp
  next
    assume a: "Some (fst g) \<in> row_id ` set J \<and> snd g = filter (\<lambda>r. row_id r = Some (fst g)) J"
    then have "g = (fst g, filter (\<lambda>r. row_id r = Some (fst g)) J)"
      by (metis prod.collapse)
    moreover have "fst g \<in> {k. Some k \<in> row_id ` set J}" using a by simp
    ultimately show "g \<in> set (groupby J)" unfolding eq by (rule image_eqI)
  qed
qed

lemma distinct_groupby: "distinct (map fst (groupby J))"
  by (simp add: groupby_def comp_def)

lemma sorted_groupby: "sorted (map fst (groupby J))"
  by (simp add: groupby_def comp_def)

section \<open>Single-raster mode\<close>

text \<open>
  Claim C10. In single-raster mode (the path is not a directory), a path that does not
  exist makes \<open>get\<close> raise \<^verbatim>\<open>FileNotFoundError\<close> for every point sequence, the empty one
  included, before anything is sampled or printed.
\<close>

theorem single_raster_missing_raises:
  assumes "\<not> path_isdir w folder" and "\<not> path_exists w folder"
  shows "get w is_within (init w srtm cs folder)
         = ([], Inl (FileNotFoundError (''Raster file not found: '' @ folder)))"
  using assms by (simp add: get_def init_def process_single_raster_def)

theorem single_raster_missing_raises_witness:
  "\<not> path_isdir demo_world ''gone.tif'' \<and> \<not> path_exists demo_world ''gone.tif'' \<and>
   get demo_world in_box (init demo_world demo_grid no_points ''gone.tif'')
     = ([], Inl (FileNotFoundError ''Raster file not found: gone.tif''))"
  using single_raster_missing_raises [of demo_world "''gone.tif''" in_box demo_grid no_points]
  by (simp add: demo_world_def)

text \<open>
  Claim C9. In single-raster mode with an existing raster that yields one array of at
  least one band per coordinate, \<open>get\<close> makes exactly one sampling call, on that raster,
  and its batch is the pair \<open>(x, y)\<close> of every input point, in input order; the result
  has the length of the input and its i-th entry is the first band of the i-th sampled
  array; the grid and the containment test play no part.
\<close>

theorem single_raster_samples_once:
  assumes "\<not> path_isdir w folder" and "path_exists w folder"
    and "length (dataset_sample w folder (map (\<lambda>p. (px p, py p)) (features cs)))
         = length (features cs)"
    and "[] \<notin> set (dataset_sample w folder (map (\<lambda>p. (px p, py p)) (features cs)))"
  shows "\<exists>res.
           get w is_within (init w srtm cs folder)
             = ([Sampled folder (map (\<lambda>p. (px p, py p)) (features cs))], Inr res)
         \<and> length res = length (features cs)
         \<and> (\<forall>i<length (features cs).
               map (\<lambda>p. (px p, py p)) (features cs) ! i = (px (features cs ! i), py (features cs ! i))
             \<and> res ! i
                 = Some (hd (dataset_sample w folder (map (\<lambda>p. (px p, py p)) (features cs)) ! i)))
         \<and> get w is_within' (init w srtm' cs folder) = get w is_within (init w srtm cs folder)"
  using assms first_bands_ok [of "dataset_sample w folder (map (\<lambda>p. (px p, py p)) (features cs))"]
  by (simp add: get_def init_def process_single_raster_def value_from_src_def Let_def
      coords_list_of_def)

theorem single_raster_samples_once_witness:
  "\<not> path_isdir demo_world ''dem.tif'' \<and> path_exists demo_world ''dem.tif''
   \<and> features two_points = [Point (3/2) (1/2), Point (1/2) (1/2)]
   \<and> dataset_sample demo_world ''dem.tif'' [(3/2, 1/2), (1/2, 1/2)] = [[200], [150]]
   \<and> fst (get demo_world in_box (init demo_world demo_grid two_points ''dem.tif''))
       = [Sampled ''dem.tif'' [(3/2, 1/2), (1/2, 1/2)]]
   \<and> (\<exists>res. snd (get demo_world in_box (init demo_world demo_grid two_points ''dem.tif'')) = Inr res
         \<and> length res = 2 \<and> res ! 0 = Some 200 \<and> res ! 1 = Some 150)
   \<and> get demo_world in_box (init demo_world empty_grid two_points ''dem.tif'')
       = get demo_world in_box (init demo_world demo_grid two_points ''dem.tif'')"
proof -
  let ?batch = "map (\<lambda>p. (px p, py p)) (features two_points)"
  have h1: "\<not> path_isdir demo_world ''dem.tif''" by (simp add: demo_world_def)
  have h2: "path_exists demo_world ''dem.tif''" by (simp add: demo_world_def)
  have pts: "features two_points = [Point (3/2) (1/2), Point (1/2) (1/2)]"
    by (simp add: two_points_def)
  have batch: "?batch = [(3/2, 1/2), (1/2, 1/2)]" by (simp add: pts)
  have smp: "dataset_sample demo_world ''dem.tif'' [(3/2, 1/2), (1/2, 1/2)] = [[200], [150]]"
    by (simp add: demo_world_def)
  have h3: "length (dataset_sample demo_world ''dem.tif'' ?batch) = length (features two_points)"
    unfolding batch smp by (simp add: pts)
  have h4: "[] \<notin> set (dataset_sample demo_world ''dem.tif'' ?batch)"
    unfolding batch smp by simp
  from single_raster_samples_once [OF h1 h2 h3 h4, of in_box demo_grid in_box empty_grid]
  obtain res where
    g: "get demo_world in_box (init demo_world demo_grid two_points ''dem.tif'')
          = ([Sampled ''dem.tif'' ?batch], Inr res)"
    and l: "length res = length (features two_points)"
    and v: "\<forall>i<length (features two_points).
              ?batch ! i = (px (features two_points ! i), py (features two_points ! i))
            \<and> res ! i = Some (hd (dataset_sample demo_world ''dem.tif'' ?batch ! i))"
    and e: "get demo_world in_box (init demo_world empty_grid two_points ''dem.tif'')
          = get demo_world in_box (init demo_world demo_grid two_points ''dem.tif'')"
    by blast
  have n: "0 < length (features two_points)" "1 < length (features two_points)"
    by (simp_all add: pts)
  from v n(1) have r0: "res ! 0 = Some 200" unfolding batch smp by simp
  from v n(2) have r1: "res ! 1 = Some 150" unfolding batch smp by simp
  from g have f: "fst (get demo_world in_box (init demo_world demo_grid two_points ''dem.tif''))
       = [Sampled ''dem.tif'' [(3/2, 1/2), (1/2, 1/2)]]"
    by (simp add: batch)
  from g have "snd (get demo_world in_box (init demo_world demo_grid two_points ''dem.tif'')) = Inr res"
    by simp
  with l r0 r1 have "\<exists>res. snd (get demo_world in_box (init demo_world demo_grid two_points ''dem.tif'')) = Inr res
         \<and> length res = 2 \<and> res ! 0 = Some 200 \<and> res ! 1 = Some 150"
    by (simp add: pts)
  with h1 h2 pts smp f e show ?thesis by blast
qed

section \<open>The run over a directory\<close>

lemma group_rows_in_joined: "g \<in> set (groupby J) \<Longrightarrow> set (snd g) \<subseteq> set J"
  by (auto simp: in_groupby)

lemma process_directory_Inr:
  assumes "process_directory w W self = (evs, Inr res)"
  shows "evs = directory_events w W self"
    and "res = fold store (directory_writes w W self)
                 (replicate (length (sjoin W (coords self) (srtm_reference self))) None)"
proof -
  let ?J = "sjoin W (coords self) (srtm_reference self)"
  obtain e r where pg: "process_groups w (images_folder self) (has_missing_id ?J) (groupby ?J) (replicate (length ?J) None) = (e, r)"
    by (cases "process_groups w (images_folder self) (has_missing_id ?J) (groupby ?J) (replicate (length ?J) None)")
  from assms pg have r: "r = Inr res" and evs: "evs = unmatched_warning ?J @ e"
    by (simp_all add: process_directory_def Let_def unmatched_warning_def)
  from process_groups_Inr [OF pg [unfolded r]] evs
  show "evs = directory_events w W self"
    and "res = fold store (directory_writes w W self) (replicate (length ?J) None)"
    by (simp_all add: directory_events_def directory_writes_def Let_def)
qed

lemma process_directory_ok:
  fixes w :: "('id::linorder, 'v) world"
  assumes "\<forall>path cl. [] \<notin> set (dataset_sample w path cl)"
  shows "process_directory w W self
         = (directory_events w W self,
            Inr (fold store (directory_writes w W self)
                   (replicate (length (sjoin W (coords self) (srtm_reference self))) None)))"
proof -
  let ?J = "sjoin W (coords self) (srtm_reference self)"
  have idx: "\<forall>g\<in>set (groupby ?J). \<forall>r\<in>set (snd g). original_index r < length (replicate (length ?J) (None :: 'v option))"
  proof (intro ballI)
    fix g r assume "g \<in> set (groupby ?J)" "r \<in> set (snd g)"
    then have "r \<in> set ?J" using group_rows_in_joined by blast
    from sjoin_row(1) [OF this] length_sjoin_ge [of "coords self" W "srtm_reference self"]
    show "original_index r < length (replicate (length ?J) (None :: 'v option))" by simp
  qed
  have smp: "\<forall>g\<in>set (groupby ?J). [] \<notin> set (dataset_sample w
      (raster_path_of w (images_folder self) (has_missing_id ?J) (fst g)) (group_coords g))"
    using assms by blast
  from process_groups_ok [OF smp idx] show ?thesis
    by (simp add: process_directory_def Let_def directory_events_def directory_writes_def
        unmatched_warning_def)
qed

lemma process_directory_events:
  "set (fst (process_directory w W self)) \<subseteq> set (directory_events w W self)"
proof -
  let ?J = "sjoin W (coords self) (srtm_reference self)"
  obtain e r where pg: "process_groups w (images_folder self) (has_missing_id ?J) (groupby ?J) (replicate (length ?J) None) = (e, r)"
    by (cases "process_groups w (images_folder self) (has_missing_id ?J) (groupby ?J) (replicate (length ?J) None)")
  have "set e \<subseteq> (\<Union>g\<in>set (groupby ?J). set (group_events w (images_folder self) (has_missing_id ?J) g))"
    using process_groups_events [of w "images_folder self" "has_missing_id ?J" "groupby ?J" "replicate (length ?J) None"] pg
    by simp
  moreover have "fst (process_directory w W self) = unmatched_warning ?J @ e"
    using pg by (simp add: process_directory_def Let_def unmatched_warning_def)
  ultimately show ?thesis
    by (auto simp: directory_events_def Let_def)
qed

lemma process_directory_warning_first:
  "\<exists>e. fst (process_directory w W self)
        = unmatched_warning (sjoin W (coords self) (srtm_reference self)) @ e
      \<and> Warning_unmatched \<notin> set e"
proof -
  let ?J = "sjoin W (coords self) (srtm_reference self)"
  obtain e r where pg: "process_groups w (images_folder self) (has_missing_id ?J) (groupby ?J) (replicate (length ?J) None) = (e, r)"
    by (cases "process_groups w (images_folder self) (has_missing_id ?J) (groupby ?J) (replicate (length ?J) None)")
  have "set e \<subseteq> (\<Union>g\<in>set (groupby ?J). set (group_events w (images_folder self) (has_missing_id ?J) g))"
    using process_groups_events [of w "images_folder self" "has_missing_id ?J" "groupby ?J" "replicate (length ?J) None"] pg
    by simp
  then have "Warning_unmatched \<notin> set e"
    by (auto simp: group_events_def split: if_splits)
  moreover have "fst (process_directory w W self) = unmatched_warning ?J @ e"
    using pg by (simp add: process_directory_def Let_def unmatched_warning_def)
  ultimately show ?thesis by blast
qed

lemma in_group_writes:
  "(i, v) \<in> set (group_writes w folder u g) \<longleftrightarrow>
     path_exists w (raster_path_of w folder u (fst g)) \<and>
     (\<exists>j. j < length (snd g)
          \<and> j < length (dataset_sample w (raster_path_of w folder u (fst g)) (group_coords g))
          \<and> i = original_index (snd g ! j)
          \<and> v = hd (dataset_sample w (raster_path_of w folder u (fst g)) (group_coords g) ! j))"
proof -
  let ?p = "raster_path_of w folder u (fst g)"
  let ?s = "dataset_sample w ?p (group_coords g)"
  have "(i, v) \<in> set (zip (map original_index (snd g)) (map hd ?s)) \<longleftrightarrow>
        (\<exists>j. j < length (snd g) \<and> j < length ?s
             \<and> i = original_index (snd g ! j) \<and> v = hd (?s ! j))"
  proof
    assume "(i, v) \<in> set (zip (map original_index (snd g)) (map hd ?s))"
    then obtain j where "map original_index (snd g) ! j = i" "map hd ?s ! j = v"
      "j < length (snd g)" "j < length ?s"
      by (auto simp: in_set_zip)
    then show "\<exists>j. j < length (snd g) \<and> j < length ?s
             \<and> i = original_index (snd g ! j) \<and> v = hd (?s ! j)"
      by (intro exI [of _ j]) simp
  next
    assume "\<exists>j. j < length (snd g) \<and> j < length ?s
             \<and> i = original_index (snd g ! j) \<and> v = hd (?s ! j)"
    then obtain j where "j < length (snd g)" "j < length ?s"
      "i = original_index (snd g ! j)" "v = hd (?s ! j)" by blast
    then have "(i, v) = zip (map original_index (snd g)) (map hd ?s) ! j"
      and "j < length (zip (map original_index (snd g)) (map hd ?s))"
      by simp_all
    then show "(i, v) \<in> set (zip (map original_index (snd g)) (map hd ?s))"
      using nth_mem by metis
  qed
  then show ?thesis by (simp add: group_writes_def)
qed

lemma replicate_store_nth:
  "i < n \<Longrightarrow> fold store ws (replicate n None) ! i = map_of (rev ws) i"
  by (simp add: fold_store_nth split: option.splits)

section \<open>Unmatched points\<close>

lemma group_row:
  assumes "g \<in> set (groupby J)" and "j < length (snd g)"
  shows "snd g ! j \<in> set J" and "row_id (snd g ! j) = Some (fst g)"
proof -
  from assms(1) have eq: "snd g = filter (\<lambda>r. row_id r = Some (fst g)) J"
    by (simp add: in_groupby)
  have "snd g ! j \<in> set (snd g)" using assms(2) by (rule nth_mem)
  then have "snd g ! j \<in> set (filter (\<lambda>r. row_id r = Some (fst g)) J)"
    using eq by simp
  then show "snd g ! j \<in> set J" and "row_id (snd g ! j) = Some (fst g)" by simp_all
qed

lemma directory_writes_D:
  assumes "(i, v) \<in> set (directory_writes w W self)"
  shows "\<exists>g j. g \<in> set (groupby (sjoin W (coords self) (srtm_reference self)))
            \<and> path_exists w (directory_path w W self (fst g))
            \<and> j < length (snd g)
            \<and> j < length (dataset_sample w (directory_path w W self (fst g)) (group_coords g))
            \<and> i = original_index (snd g ! j)
            \<and> v = hd (dataset_sample w (directory_path w W self (fst g)) (group_coords g) ! j)"
proof -
  let ?J = "sjoin W (coords self) (srtm_reference self)"
  from assms obtain g where g: "g \<in> set (groupby ?J)"
    and iv: "(i, v) \<in> set (group_writes w (images_folder self) (has_missing_id ?J) g)"
    by (auto simp: directory_writes_def)
  from iv [unfolded in_group_writes] g show ?thesis unfolding directory_path_def by blast
qed

lemma directory_writes_I:
  assumes "g \<in> set (groupby (sjoin W (coords self) (srtm_reference self)))"
    and "path_exists w (directory_path w W self (fst g))"
    and "j < length (snd g)"
    and "j < length (dataset_sample w (directory_path w W self (fst g)) (group_coords g))"
  shows "(original_index (snd g ! j),
          hd (dataset_sample w (directory_path w W self (fst g)) (group_coords g) ! j))
         \<in> set (directory_writes w W self)"
proof -
  let ?J = "sjoin W (coords self) (srtm_reference self)"
  have "(original_index (snd g ! j),
          hd (dataset_sample w (directory_path w W self (fst g)) (group_coords g) ! j))
         \<in> set (group_writes w (images_folder self) (has_missing_id ?J) g)"
    unfolding in_group_writes directory_path_def
    using assms(2,3,4) [unfolded directory_path_def] by blast
  with assms(1) show ?thesis by (auto simp: directory_writes_def)
qed

lemma written_index_matched:
  assumes "(i, v) \<in> set (directory_writes w W self)"
  shows "i < length (features (coords self))"
    and "matches W (features (srtm_reference self)) (features (coords self) ! i) \<noteq> []"
proof -
  let ?J = "sjoin W (coords self) (srtm_reference self)"
  from directory_writes_D [OF assms] obtain g j where g: "g \<in> set (groupby ?J)"
    and j: "j < length (snd g)" and i: "i = original_index (snd g ! j)" by blast
  let ?r = "snd g ! j"
  from group_row [OF g j] have r: "?r \<in> set ?J" and k: "row_id ?r = Some (fst g)" by simp_all
  from sjoin_row(1) [OF r] i show "i < length (features (coords self))" by simp
  from sjoin_row(4) [OF r k] sjoin_row(2) [OF r] i
  show "matches W (features (srtm_reference self)) (features (coords self) ! i) \<noteq> []"
    by auto
qed

lemma directory_events_Sampled:
  assumes "Sampled path cl \<in> set (directory_events w W self)"
  shows "\<exists>g\<in>set (groupby (sjoin W (coords self) (srtm_reference self))).
           path = directory_path w W self (fst g) \<and> path_exists w path
           \<and> cl = group_coords g"
  using assms
  by (auto simp: directory_events_def Let_def unmatched_warning_def group_events_def
      directory_path_def split: if_splits)

lemma sampled_coordinate_matched:
  assumes "Sampled path cl \<in> set (directory_events w W self)" and "c \<in> set cl"
  shows "\<exists>p\<in>set (features (coords self)).
           c = (px p, py p) \<and> matches W (features (srtm_reference self)) p \<noteq> []"
proof -
  let ?J = "sjoin W (coords self) (srtm_reference self)"
  from directory_events_Sampled [OF assms(1)] obtain g where g: "g \<in> set (groupby ?J)"
    and cl: "cl = group_coords g" by blast
  from assms(2) cl obtain j where j: "j < length (snd g)"
    and c: "c = (px (row_geometry (snd g ! j)), py (row_geometry (snd g ! j)))"
    by (auto simp: group_coords_def coords_list_of_def in_set_conv_nth)
  let ?r = "snd g ! j"
  from group_row [OF g j] have r: "?r \<in> set ?J" and k: "row_id ?r = Some (fst g)" by simp_all
  from sjoin_row(1,2) [OF r] have "row_geometry ?r \<in> set (features (coords self))"
    using nth_mem by metis
  moreover from sjoin_row(4) [OF r k]
  have "matches W (features (srtm_reference self)) (row_geometry ?r) \<noteq> []" by auto
  ultimately show ?thesis using c by blast
qed

lemma count_list_absent: "x \<notin> set xs \<Longrightarrow> count_list xs x = 0"
  by (induction xs) auto

lemma init_simps [simp]:
  "srtm_reference (init w srtm cs folder) = srtm"
  "coords (init w srtm cs folder) = cs"
  "images_folder (init w srtm cs folder) = folder"
  "is_dir (init w srtm cs folder) = path_isdir w folder"
  by (simp_all add: init_def)

text \<open>
  Claim C2. In multi-tile mode, a point that no tile contains keeps the sentinel
  \<^verbatim>\<open>None\<close> in every result the run returns, its coordinates occur in no sampling
  call, and the warning about unmatched points is printed exactly once when such a point
  exists and not at all otherwise. The run does return a result whenever the rasters yield
  arrays with at least one band.
\<close>

theorem unmatched_points_get_sentinel:
  fixes w :: "('id::linorder, 'v) world"
  assumes "path_isdir w folder"
  shows "(\<forall>res i. snd (get w is_within (init w srtm cs folder)) = Inr res
             \<and> i < length (features cs) \<and> matches is_within (features srtm) (features cs ! i) = []
           \<longrightarrow> i < length res \<and> res ! i = None)
       \<and> (\<forall>path cl p. Sampled path cl \<in> set (fst (get w is_within (init w srtm cs folder)))
             \<and> p \<in> set (features cs) \<and> matches is_within (features srtm) p = []
           \<longrightarrow> (px p, py p) \<notin> set cl)
       \<and> count_list (fst (get w is_within (init w srtm cs folder))) Warning_unmatched
           = (if \<exists>p\<in>set (features cs). matches is_within (features srtm) p = [] then 1 else 0)
       \<and> ((\<forall>path cl. [] \<notin> set (dataset_sample w path cl))
           \<longrightarrow> (\<exists>res. snd (get w is_within (init w srtm cs folder)) = Inr res))"
proof -
  let ?self = "init w srtm cs folder"
  let ?J = "sjoin is_within cs srtm"
  have get: "get w is_within ?self = process_directory w is_within ?self"
    using assms by (simp add: get_def)
  have a: "\<forall>res i. snd (get w is_within ?self) = Inr res
             \<and> i < length (features cs) \<and> matches is_within (features srtm) (features cs ! i) = []
           \<longrightarrow> i < length res \<and> res ! i = None"
  proof (intro allI impI, elim conjE)
    fix res i
    assume r: "snd (get w is_within ?self) = Inr res" and i: "i < length (features cs)"
      and m: "matches is_within (features srtm) (features cs ! i) = []"
    from r get have "process_directory w is_within ?self = (fst (process_directory w is_within ?self), Inr res)"
      by (metis prod.collapse)
    from process_directory_Inr(2) [OF this]
    have res: "res = fold store (directory_writes w is_within ?self) (replicate (length ?J) None)"
      by simp
    have iJ: "i < length ?J" using i length_sjoin_ge [of cs is_within srtm] by simp
    have "i \<notin> fst ` set (directory_writes w is_within ?self)"
    proof
      assume "i \<in> fst ` set (directory_writes w is_within ?self)"
      then obtain v where "(i, v) \<in> set (directory_writes w is_within ?self)" by auto
      from written_index_matched(2) [OF this] m show False by simp
    qed
    then have "map_of (rev (directory_writes w is_within ?self)) i = None"
      by (simp add: map_of_eq_None_iff)
    with res iJ show "i < length res \<and> res ! i = None"
      by (simp add: replicate_store_nth)
  qed
  have b: "\<forall>path cl p. Sampled path cl \<in> set (fst (get w is_within ?self))
             \<and> p \<in> set (features cs) \<and> matches is_within (features srtm) p = []
           \<longrightarrow> (px p, py p) \<notin> set cl"
  proof (intro allI impI, elim conjE)
    fix path cl p
    assume s: "Sampled path cl \<in> set (fst (get w is_within ?self))"
      and m: "matches is_within (features srtm) p = []"
    from s get process_directory_events [of w is_within ?self]
    have s': "Sampled path cl \<in> set (directory_events w is_within ?self)" by auto
    show "(px p, py p) \<notin> set cl"
    proof
      assume "(px p, py p) \<in> set cl"
      from sampled_coordinate_matched [OF s' this] obtain q where
        "(px p, py p) = (px q, py q)" and q: "matches is_within (features srtm) q \<noteq> []"
        by auto
      then have "p = q" by (simp add: point.expand)
      with q m show False by simp
    qed
  qed
  have c: "count_list (fst (get w is_within ?self)) Warning_unmatched
           = (if \<exists>p\<in>set (features cs). matches is_within (features srtm) p = [] then 1 else 0)"
  proof -
    from process_directory_warning_first [of w is_within ?self] obtain e where
      e: "fst (process_directory w is_within ?self) = unmatched_warning ?J @ e"
      and n: "Warning_unmatched \<notin> set e" by auto
    have "count_list e Warning_unmatched = 0" using n by (rule count_list_absent)
    then show ?thesis
      using has_missing_id_sjoin [of is_within cs srtm]
      by (simp add: get e unmatched_warning_def)
  qed
  have d: "(\<forall>path cl. [] \<notin> set (dataset_sample w path cl))
           \<longrightarrow> (\<exists>res. snd (get w is_within ?self) = Inr res)"
    using process_directory_ok [of w is_within ?self] by (simp add: get)
  from a b c d show ?thesis by (intro conjI)
qed

lemma demo_sampler_total: "\<forall>path cl. [] \<notin> set (dataset_sample demo_world path cl)"
  by (auto simp: demo_world_def)

lemma demo_isdir: "path_isdir demo_world ''tiles''"
  by (simp add: demo_world_def)

theorem unmatched_points_get_sentinel_witness:
  "path_isdir demo_world ''tiles''
   \<and> matches in_box (features demo_grid) (features mixed_points ! 2) = []
   \<and> (\<exists>res. snd (get demo_world in_box (init demo_world demo_grid mixed_points ''tiles'')) = Inr res
          \<and> 2 < length res \<and> res ! 2 = None)
   \<and> \<not> (\<exists>path cl. Sampled path cl \<in> set (fst (get demo_world in_box (init demo_world demo_grid mixed_points ''tiles'')))
          \<and> (5, 5) \<in> set cl)
   \<and> count_list (fst (get demo_world in_box (init demo_world demo_grid mixed_points ''tiles''))) Warning_unmatched = 1"
proof -
  let ?run = "get demo_world in_box (init demo_world demo_grid mixed_points ''tiles'')"
  have m: "matches in_box (features demo_grid) (features mixed_points ! 2) = []"
    by (simp add: matches_def demo_grid_def mixed_points_def in_box_def)
  have m': "matches in_box (features demo_grid) (Point 5 5) = []"
    using m by (simp add: mixed_points_def)
  have p: "Point 5 5 \<in> set (features mixed_points)" by (simp add: mixed_points_def)
  have l: "2 < length (features mixed_points)" by (simp add: mixed_points_def)
  note t = unmatched_points_get_sentinel [OF demo_isdir, of in_box demo_grid mixed_points]
  from t demo_sampler_total obtain res where res: "snd ?run = Inr res" by blast
  with t l m have "2 < length res \<and> res ! 2 = None" by blast
  moreover from t p m' have "\<not> (\<exists>path cl. Sampled path cl \<in> set (fst ?run) \<and> (5, 5) \<in> set cl)"
    by fastforce
  moreover have "count_list (fst ?run) Warning_unmatched = 1"
  proof -
    have ex: "\<exists>p\<in>set (features mixed_points). matches in_box (features demo_grid) p = []"
      using p m' by blast
    from t have "count_list (fst ?run) Warning_unmatched
        = (if \<exists>p\<in>set (features mixed_points). matches in_box (features demo_grid) p = []
           then 1 else 0)" by blast
    with ex show ?thesis by simp
  qed
  ultimately show ?thesis using demo_isdir m res by blast
qed

section \<open>Written slots and sampled values\<close>

lemma directory_events_I:
  assumes "g \<in> set (groupby (sjoin W (coords self) (srtm_reference self)))"
    and "path_exists w (directory_path w W self (fst g))"
  shows "Sampled (directory_path w W self (fst g)) (group_coords g)
         \<in> set (directory_events w W self)"
proof -
  let ?J = "sjoin W (coords self) (srtm_reference self)"
  have "Sampled (directory_path w W self (fst g)) (group_coords g)
         \<in> set (group_events w (images_folder self) (has_missing_id ?J) g)"
    using assms(2) by (simp add: group_events_def directory_path_def)
  with assms(1) show ?thesis by (auto simp: directory_events_def Let_def)
qed

lemma length_group_coords [simp]: "length (group_coords g) = length (snd g)"
  by (simp add: group_coords_def coords_list_of_def)

lemma group_coords_nth:
  "j < length (snd g) \<Longrightarrow>
   group_coords g ! j = (px (row_geometry (snd g ! j)), py (row_geometry (snd g ! j)))"
  by (simp add: group_coords_def coords_list_of_def)

lemma written_value_sampled:
  assumes "(i, v) \<in> set (directory_writes w W self)"
  shows "\<exists>t path cl k.
           t \<in> set (matches W (features (srtm_reference self)) (features (coords self) ! i))
         \<and> path = directory_path w W self (tile_id t)
         \<and> path_exists w path
         \<and> Sampled path cl \<in> set (directory_events w W self)
         \<and> k < length cl
         \<and> cl ! k = (px (features (coords self) ! i), py (features (coords self) ! i))
         \<and> k < length (dataset_sample w path cl)
         \<and> v = hd (dataset_sample w path cl ! k)"
proof -
  let ?J = "sjoin W (coords self) (srtm_reference self)"
  from directory_writes_D [OF assms] obtain g j where g: "g \<in> set (groupby ?J)"
    and ex: "path_exists w (directory_path w W self (fst g))"
    and j: "j < length (snd g)"
    and js: "j < length (dataset_sample w (directory_path w W self (fst g)) (group_coords g))"
    and i: "i = original_index (snd g ! j)"
    and v: "v = hd (dataset_sample w (directory_path w W self (fst g)) (group_coords g) ! j)"
    by blast
  let ?r = "snd g ! j"
  from group_row [OF g j] have r: "?r \<in> set ?J" and k: "row_id ?r = Some (fst g)" by simp_all
  from sjoin_row(2) [OF r] i have geom: "row_geometry ?r = features (coords self) ! i" by simp
  from sjoin_row(4) [OF r k] geom obtain t where
    t: "t \<in> set (matches W (features (srtm_reference self)) (features (coords self) ! i))"
    and tid: "tile_id t = fst g" by auto
  have c: "group_coords g ! j = (px (features (coords self) ! i), py (features (coords self) ! i))"
    using group_coords_nth [OF j] geom by simp
  from t tid ex directory_events_I [OF g ex] j c js v show ?thesis
    by (intro exI [of _ t] exI [of _ "directory_path w W self (fst g)"]
        exI [of _ "group_coords g"] exI [of _ j]) simp
qed

lemma matched_point_written:
  assumes "i < length (features (coords self))"
    and "t \<in> set (matches W (features (srtm_reference self)) (features (coords self) ! i))"
    and "path_exists w (directory_path w W self (tile_id t))"
    and "\<forall>cl. length cl \<le> length (dataset_sample w (directory_path w W self (tile_id t)) cl)"
  shows "i \<in> fst ` set (directory_writes w W self)"
proof -
  let ?J = "sjoin W (coords self) (srtm_reference self)"
  let ?p = "features (coords self) ! i"
  let ?r = "\<lparr>original_index = i, row_geometry = ?p, row_id = Some (tile_id t)\<rparr>"
  let ?g = "(tile_id t, filter (\<lambda>r. row_id r = Some (tile_id t)) ?J)"
  have ne: "matches W (features (srtm_reference self)) ?p \<noteq> []" using assms(2) by auto
  have "?r \<in> set (join_point W (features (srtm_reference self)) (i, ?p))"
    using assms(2) ne by (simp add: in_join_point)
  then have r: "?r \<in> set ?J" using assms(1) by (auto simp: in_sjoin)
  then have "row_id ?r \<in> row_id ` set ?J" by (rule imageI)
  then have g: "?g \<in> set (groupby ?J)" by (simp add: in_groupby)
  have "?r \<in> set (snd ?g)" using r by simp
  then obtain j where j: "j < length (snd ?g)" and rj: "snd ?g ! j = ?r"
    unfolding in_set_conv_nth by blast
  have js: "j < length (dataset_sample w (directory_path w W self (fst ?g)) (group_coords ?g))"
  proof -
    have "length (group_coords ?g)
          \<le> length (dataset_sample w (directory_path w W self (tile_id t)) (group_coords ?g))"
      using assms(4) by blast
    with j show ?thesis by simp
  qed
  have ex: "path_exists w (directory_path w W self (fst ?g))" using assms(3) by simp
  from directory_writes_I [OF g ex j js] rj
  have "(i, hd (dataset_sample w (directory_path w W self (fst ?g)) (group_coords ?g) ! j))
        \<in> set (directory_writes w W self)" by simp
  then show ?thesis by (rule image_eqI [rotated]) simp
qed

lemma written_slot:
  assumes "i \<in> fst ` set ws"
  shows "\<exists>v. map_of (rev ws) i = Some v \<and> (i, v) \<in> set ws"
proof -
  from assms have "i \<in> fst ` set (rev ws)" by simp
  then have "map_of (rev ws) i \<noteq> None" by (simp only: map_of_eq_None_iff not_not)
  then obtain v where v: "map_of (rev ws) i = Some v" by blast
  from map_of_SomeD [OF v] have "(i, v) \<in> set ws" by simp
  with v show ?thesis by blast
qed

section \<open>Fully covered input\<close>

text \<open>
  Claim C1. In multi-tile mode, when the input is not empty, every point lies within
  exactly one tile, the raster of every matched tile exists and the rasters yield one
  array of at least one band per coordinate, the run returns a result as long as the
  input without any sentinel, and the i-th entry is the first band of the array sampled
  for the i-th point's coordinates from the raster of the tile that contains it.
\<close>

theorem covered_points_all_sampled:
  fixes w :: "('id::linorder, 'v) world"
  assumes "path_isdir w folder"
    and "features cs \<noteq> []"
    and "\<forall>p\<in>set (features cs). length (matches is_within (features srtm) p) = 1"
    and "\<forall>p\<in>set (features cs). \<forall>t\<in>set (matches is_within (features srtm) p).
           path_exists w (raster_path_of w folder False (tile_id t))"
    and "\<forall>path cl. length (dataset_sample w path cl) = length cl
           \<and> [] \<notin> set (dataset_sample w path cl)"
  shows "\<exists>res. snd (get w is_within (init w srtm cs folder)) = Inr res
         \<and> length res = length (features cs)
         \<and> None \<notin> set res
         \<and> (\<forall>i<length (features cs). \<exists>t path cl k.
               t \<in> set (matches is_within (features srtm) (features cs ! i))
             \<and> path = raster_path_of w folder False (tile_id t)
             \<and> Sampled path cl \<in> set (fst (get w is_within (init w srtm cs folder)))
             \<and> k < length cl
             \<and> cl ! k = (px (features cs ! i), py (features cs ! i))
             \<and> res ! i = Some (hd (dataset_sample w path cl ! k)))"
proof -
  let ?self = "init w srtm cs folder"
  let ?J = "sjoin is_within cs srtm"
  let ?ws = "directory_writes w is_within ?self"
  let ?res = "fold store ?ws (replicate (length ?J) None)"
  have smp: "\<forall>path cl. [] \<notin> set (dataset_sample w path cl)" using assms(5) by blast
  have get: "get w is_within ?self = (directory_events w is_within ?self, Inr ?res)"
    using assms(1) process_directory_ok [OF smp, of is_within ?self] by (simp add: get_def)
  have lenJ: "length ?J = length (features cs)"
    using assms(3) by (intro length_sjoin_eq) simp
  have len: "length ?res = length (features cs)" using lenJ by simp
  have "\<not> has_missing_id ?J"
    using assms(3) by (auto simp: has_missing_id_sjoin)
  then have path: "directory_path w is_within ?self k = raster_path_of w folder False k" for k
    by (simp add: directory_path_def)
  have slot: "\<exists>t path cl k.
               t \<in> set (matches is_within (features srtm) (features cs ! i))
             \<and> path = raster_path_of w folder False (tile_id t)
             \<and> Sampled path cl \<in> set (directory_events w is_within ?self)
             \<and> k < length cl
             \<and> cl ! k = (px (features cs ! i), py (features cs ! i))
             \<and> ?res ! i = Some (hd (dataset_sample w path cl ! k))"
    if i: "i < length (features cs)" for i
  proof -
    let ?p = "features cs ! i"
    have p: "?p \<in> set (features cs)" using i by simp
    with assms(3) have "length (matches is_within (features srtm) ?p) = 1" by blast
    then obtain t where t: "t \<in> set (matches is_within (features srtm) ?p)"
      by (cases "matches is_within (features srtm) ?p") auto
    with assms(4) p have ex: "path_exists w (raster_path_of w folder False (tile_id t))" by blast
    have "i \<in> fst ` set ?ws"
      using i t ex assms(5)
      by (intro matched_point_written [of i ?self t is_within w]) (simp_all add: path)
    from written_slot [OF this] obtain v where v: "map_of (rev ?ws) i = Some v"
      and iv: "(i, v) \<in> set ?ws" by blast
    have "?res ! i = Some v" using i lenJ v by (simp add: replicate_store_nth)
    with written_value_sampled [OF iv] show ?thesis
      by (simp add: path del: length_fold_store) blast
  qed
  have none: "None \<notin> set ?res"
  proof
    assume "None \<in> set ?res"
    then obtain i where "i < length ?res" "?res ! i = None"
      unfolding in_set_conv_nth by blast
    with len slot [of i] show False by auto
  qed
  from get len none slot show ?thesis by (intro exI [of _ ?res]) simp
qed

lemma demo_two_points_one_tile:
  "\<forall>p\<in>set (features two_points). length (matches in_box (features demo_grid) p) = 1"
  by (simp add: two_points_def matches_def demo_grid_def in_box_def)

lemma demo_two_points_rasters:
  "\<forall>p\<in>set (features two_points). \<forall>t\<in>set (matches in_box (features demo_grid) p).
     path_exists demo_world (raster_path_of demo_world ''tiles'' False (tile_id t))"
  by (simp add: two_points_def matches_def demo_grid_def in_box_def raster_path_of_def demo_world_def)

lemma demo_sampler_lengths:
  "\<forall>path cl. length (dataset_sample demo_world path cl) = length cl
     \<and> [] \<notin> set (dataset_sample demo_world path cl)"
  by (auto simp: demo_world_def)

lemma demo_two_points_run:
  "get demo_world in_box (init demo_world demo_grid two_points ''tiles'')
   = ([Sampled ''tiles/1.gpkg'' [(1/2, 1/2)], Sampled ''tiles/2.gpkg'' [(3/2, 1/2)]],
      Inr [Some 200, Some 100])"
  by (simp add: get_def init_def process_directory_def sjoin_def join_point_def matches_def
      groupby_def demo_grid_def two_points_def in_box_def demo_world_def process_group_def
      raster_path_of_def coords_list_of_def value_from_src_def enumerate_eq_zip upt_rec has_missing_id_def)

theorem covered_points_all_sampled_witness:
  "path_isdir demo_world ''tiles''
   \<and> features two_points = [Point (3/2) (1/2), Point (1/2) (1/2)]
   \<and> matches in_box (features demo_grid) (Point (3/2) (1/2))
       = [\<lparr>tile_id = 2, tile_geometry = (1, 2, 0, 1)\<rparr>]
   \<and> matches in_box (features demo_grid) (Point (1/2) (1/2))
       = [\<lparr>tile_id = 1, tile_geometry = (0, 1, 0, 1)\<rparr>]
   \<and> path_exists demo_world (raster_path_of demo_world ''tiles'' False 1)
   \<and> path_exists demo_world (raster_path_of demo_world ''tiles'' False 2)
   \<and> (\<forall>path cl. length (dataset_sample demo_world path cl) = length cl
         \<and> [] \<notin> set (dataset_sample demo_world path cl))
   \<and> (\<exists>res. snd (get demo_world in_box (init demo_world demo_grid two_points ''tiles'')) = Inr res
         \<and> length res = length (features two_points) \<and> None \<notin> set res)"
proof -
  have pts: "features two_points = [Point (3/2) (1/2), Point (1/2) (1/2)]"
    by (simp add: two_points_def)
  have ne: "features two_points \<noteq> []" by (simp add: two_points_def)
  have m2: "matches in_box (features demo_grid) (Point (3/2) (1/2))
       = [\<lparr>tile_id = 2, tile_geometry = (1, 2, 0, 1)\<rparr>]"
    by (simp add: matches_def demo_grid_def in_box_def)
  have m1: "matches in_box (features demo_grid) (Point (1/2) (1/2))
       = [\<lparr>tile_id = 1, tile_geometry = (0, 1, 0, 1)\<rparr>]"
    by (simp add: matches_def demo_grid_def in_box_def)
  have e1: "path_exists demo_world (raster_path_of demo_world ''tiles'' False 1)"
    and e2: "path_exists demo_world (raster_path_of demo_world ''tiles'' False 2)"
    by (simp_all add: raster_path_of_def demo_world_def)
  from covered_points_all_sampled [OF demo_isdir ne demo_two_points_one_tile
      demo_two_points_rasters demo_sampler_lengths]
  have "\<exists>res. snd (get demo_world in_box (init demo_world demo_grid two_points ''tiles'')) = Inr res
         \<and> length res = length (features two_points) \<and> None \<notin> set res"
    by blast
  with demo_isdir pts m1 m2 e1 e2 demo_sampler_lengths
  show ?thesis by blast
qed

section \<open>A missing raster\<close>

lemma map_of_rev_filter:
  "map_of (rev xs) i = map_of (rev (filter (\<lambda>jv. fst jv = i) xs)) i"
proof (induction xs)
  case Nil
  then show ?case by simp
next
  case (Cons a xs)
  then show ?case by (cases a) (auto simp: map_add_def split: option.splits)
qed

lemma filter_concat_cong:
  assumes "\<forall>g\<in>set gs. filter P (f g) = filter P (f' g)"
  shows "filter P (concat (map f gs)) = filter P (concat (map f' gs))"
  using assms by (induction gs) simp_all

lemma group_write_tile:
  assumes "g \<in> set (groupby (sjoin W (coords self) (srtm_reference self)))"
    and "(i, v) \<in> set (zip (map original_index (snd g)) vs)"
  shows "\<exists>t\<in>set (matches W (features (srtm_reference self)) (features (coords self) ! i)).
           tile_id t = fst g"
proof -
  let ?J = "sjoin W (coords self) (srtm_reference self)"
  from assms(2) obtain j where j: "j < length (snd g)" and i: "i = original_index (snd g ! j)"
    by (auto simp: in_set_zip)
  let ?r = "snd g ! j"
  from group_row [OF assms(1) j] have r: "?r \<in> set ?J" and k: "row_id ?r = Some (fst g)"
    by simp_all
  from sjoin_row(4) [OF r k] sjoin_row(2) [OF r] i show ?thesis by simp
qed

text \<open>
  Claim C3, as stated, fails: a point inside a tile whose raster is missing and inside
  an overlapping tile whose raster exists is sampled from the latter and does not get the
  sentinel.
\<close>

theorem missing_raster_overlap_counterexample:
  "matches in_box (features overlap_missing_grid) (Point (3/2) (1/2))
     = [\<lparr>tile_id = 1, tile_geometry = (0, 2, 0, 1)\<rparr>, \<lparr>tile_id = 3, tile_geometry = (1, 3, 0, 1)\<rparr>]
   \<and> \<not> path_exists demo_world (raster_path_of demo_world ''tiles'' False 3)
   \<and> get demo_world in_box (init demo_world overlap_missing_grid one_point ''tiles'')
     = ([Sampled ''tiles/1.gpkg'' [(3/2, 1/2)], Raster_not_found ''tiles/3.gpkg''],
        Inr [Some 100, None])"
  by (simp add: get_def init_def process_directory_def sjoin_def join_point_def matches_def
      groupby_def overlap_missing_grid_def one_point_def in_box_def demo_world_def
      process_group_def raster_path_of_def coords_list_of_def value_from_src_def
      enumerate_eq_zip upt_rec has_missing_id_def)

text \<open>
  Claim C3, amended. In multi-tile mode, take a run in which the group keys are formatted
  like the identifiers of the tiles (identifiers that are strings, or no unmatched point),
  and let the raster of a matched tile be missing. Then the run still returns a result
  (the rasters yielding non-empty arrays), prints the diagnostic with the missing path,
  leaves the sentinel at every point none of whose tiles has a raster (so at every point
  that lies in that tile only), and every point none of whose tiles has that path gets
  exactly the value it gets in the run where the path exists.
\<close>

theorem missing_raster_isolated:
  fixes w :: "('id::linorder, 'v) world"
  assumes "path_isdir w folder"
    and "\<forall>k. format_id w (has_missing_id (sjoin is_within cs srtm)) k = format_id w False k"
    and "tm \<in> set (features srtm)"
    and "\<exists>p\<in>set (features cs). is_within p (tile_geometry tm)"
    and "\<not> path_exists w (raster_path_of w folder False (tile_id tm))"
    and "\<forall>path cl. [] \<notin> set (dataset_sample w path cl)"
  shows "\<exists>res res'.
           snd (get w is_within (init w srtm cs folder)) = Inr res
         \<and> snd (get (w\<lparr>path_exists := (path_exists w)(raster_path_of w folder False (tile_id tm) := True)\<rparr>)
                  is_within
                  (init (w\<lparr>path_exists := (path_exists w)(raster_path_of w folder False (tile_id tm) := True)\<rparr>)
                     srtm cs folder)) = Inr res'
         \<and> Raster_not_found (raster_path_of w folder False (tile_id tm))
             \<in> set (fst (get w is_within (init w srtm cs folder)))
         \<and> (\<forall>i<length (features cs).
               (\<forall>t\<in>set (matches is_within (features srtm) (features cs ! i)).
                   \<not> path_exists w (raster_path_of w folder False (tile_id t)))
               \<longrightarrow> res ! i = None)
         \<and> (\<forall>i<length (features cs).
               (\<forall>t\<in>set (matches is_within (features srtm) (features cs ! i)).
                   raster_path_of w folder False (tile_id t)
                   \<noteq> raster_path_of w folder False (tile_id tm))
               \<longrightarrow> res ! i = res' ! i)"
proof -
  let ?p0 = "raster_path_of w folder False (tile_id tm)"
  let ?w' = "w\<lparr>path_exists := (path_exists w)(?p0 := True)\<rparr>"
  let ?self = "init w srtm cs folder"
  let ?self' = "init ?w' srtm cs folder"
  let ?J = "sjoin is_within cs srtm"
  let ?u = "has_missing_id ?J"
  let ?ws = "directory_writes w is_within ?self"
  let ?ws' = "directory_writes ?w' is_within ?self'"
  let ?res = "fold store ?ws (replicate (length ?J) None)"
  let ?res' = "fold store ?ws' (replicate (length ?J) None)"
  have pu: "raster_path_of w folder ?u k = raster_path_of w folder False k" for k
    using assms(2) by (simp add: raster_path_of_def)
  have path': "raster_path_of ?w' folder b k = raster_path_of w folder b k" for b k
    by (simp add: raster_path_of_def)
  have get: "get w is_within ?self = (directory_events w is_within ?self, Inr ?res)"
    using assms(1) process_directory_ok [OF assms(6), of is_within ?self] by (simp add: get_def)
  have smp': "\<forall>path cl. [] \<notin> set (dataset_sample ?w' path cl)" using assms(6) by simp
  have get': "get ?w' is_within ?self' = (directory_events ?w' is_within ?self', Inr ?res')"
    using assms(1) process_directory_ok [OF smp', of is_within ?self'] by (simp add: get_def)
  have lenJ: "length (features cs) \<le> length ?J" by (rule length_sjoin_ge)
  \<comment> \<open>the diagnostic\<close>
  from assms(4) obtain i0 where i0: "i0 < length (features cs)"
    and in0: "is_within (features cs ! i0) (tile_geometry tm)"
    by (auto simp: in_set_conv_nth)
  let ?r0 = "\<lparr>original_index = i0, row_geometry = features cs ! i0, row_id = Some (tile_id tm)\<rparr>"
  let ?g0 = "(tile_id tm, filter (\<lambda>r. row_id r = Some (tile_id tm)) ?J)"
  have tmm: "tm \<in> set (matches is_within (features srtm) (features cs ! i0))"
    using assms(3) in0 by (simp add: matches_def)
  then have "matches is_within (features srtm) (features cs ! i0) \<noteq> []" by auto
  with tmm have "?r0 \<in> set (join_point is_within (features srtm) (i0, features cs ! i0))"
    by (simp add: in_join_point)
  then have "?r0 \<in> set ?J" using i0 by (auto simp: in_sjoin)
  then have "row_id ?r0 \<in> row_id ` set ?J" by (rule imageI)
  then have g0: "?g0 \<in> set (groupby ?J)" by (simp add: in_groupby)
  have "Raster_not_found ?p0 \<in> set (group_events w folder ?u ?g0)"
    using assms(5) by (simp add: group_events_def pu)
  with g0 have diag: "Raster_not_found ?p0 \<in> set (directory_events w is_within ?self)"
    by (auto simp: directory_events_def Let_def)
  \<comment> \<open>the sentinel\<close>
  have sentinel: "?res ! i = None"
    if i: "i < length (features cs)"
      and miss: "\<forall>t\<in>set (matches is_within (features srtm) (features cs ! i)).
                   \<not> path_exists w (raster_path_of w folder False (tile_id t))" for i
  proof -
    have "i \<notin> fst ` set ?ws"
    proof
      assume "i \<in> fst ` set ?ws"
      then obtain v where "(i, v) \<in> set ?ws" by auto
      from written_value_sampled [OF this] miss show False
        by (auto simp: directory_path_def pu)
    qed
    then have "map_of (rev ?ws) i = None" by (simp add: map_of_eq_None_iff)
    with i lenJ show ?thesis by (simp add: replicate_store_nth)
  qed
  \<comment> \<open>the other points\<close>
  have same: "?res ! i = ?res' ! i"
    if i: "i < length (features cs)"
      and other: "\<forall>t\<in>set (matches is_within (features srtm) (features cs ! i)).
                   raster_path_of w folder False (tile_id t) \<noteq> ?p0" for i
  proof -
    have "filter (\<lambda>jv. fst jv = i) (group_writes w folder ?u g)
          = filter (\<lambda>jv. fst jv = i) (group_writes ?w' folder ?u g)"
      if g: "g \<in> set (groupby ?J)" for g
    proof (cases "raster_path_of w folder False (fst g) = ?p0")
      case False
      then show ?thesis by (simp add: group_writes_def path' pu)
    next
      case True
      have "jv \<in> set (group_writes ?w' folder ?u g) \<Longrightarrow> fst jv \<noteq> i" for jv
      proof
        assume jv: "jv \<in> set (group_writes ?w' folder ?u g)" and eq: "fst jv = i"
        have "jv \<in> set (zip (map original_index (snd g))
              (map hd (dataset_sample ?w' (raster_path_of ?w' folder ?u (fst g)) (group_coords g))))"
          using jv by (auto simp: group_writes_def split: if_splits)
        moreover have "jv = (i, snd jv)" using eq prod.collapse [of jv] by simp
        ultimately have "(i, snd jv) \<in> set (zip (map original_index (snd g))
              (map hd (dataset_sample ?w' (raster_path_of ?w' folder ?u (fst g)) (group_coords g))))"
          by simp
        from group_write_tile [of g is_within ?self, simplified, OF g this]
        obtain t where "t \<in> set (matches is_within (features srtm) (features cs ! i))"
          and "tile_id t = fst g" by blast
        with other True show False by auto
      qed
      then have "filter (\<lambda>jv. fst jv = i) (group_writes ?w' folder ?u g) = []"
        by (simp add: filter_empty_conv)
      moreover have "group_writes w folder ?u g = []"
        using True assms(5) by (simp add: group_writes_def pu)
      ultimately show ?thesis by simp
    qed
    then have "\<forall>g\<in>set (groupby ?J). filter (\<lambda>jv. fst jv = i) (group_writes w folder ?u g)
          = filter (\<lambda>jv. fst jv = i) (group_writes ?w' folder ?u g)" by blast
    then have "filter (\<lambda>jv. fst jv = i) (concat (map (group_writes w folder ?u) (groupby ?J)))
          = filter (\<lambda>jv. fst jv = i) (concat (map (group_writes ?w' folder ?u) (groupby ?J)))"
      by (rule filter_concat_cong)
    then have "filter (\<lambda>jv. fst jv = i) ?ws = filter (\<lambda>jv. fst jv = i) ?ws'"
      by (simp add: directory_writes_def)
    then have "map_of (rev ?ws) i = map_of (rev ?ws') i"
      using map_of_rev_filter [of ?ws i] map_of_rev_filter [of ?ws' i] by simp
    with i lenJ show ?thesis by (simp add: replicate_store_nth)
  qed
  from get get' diag sentinel same show ?thesis
    by (intro exI [of _ ?res] exI [of _ ?res']) simp
qed

lemma demo_scenario_run:
  "get demo_world in_box (init demo_world demo_grid scenario_points ''tiles'')
   = ([Sampled ''tiles/1.gpkg'' [(1/2, 1/2)], Raster_not_found ''tiles/3.gpkg''],
      Inr [Some 100, None, None])"
  by (simp add: get_def init_def process_directory_def sjoin_def join_point_def matches_def
      groupby_def demo_grid_def scenario_points_def in_box_def demo_world_def process_group_def
      raster_path_of_def coords_list_of_def value_from_src_def enumerate_eq_zip upt_rec has_missing_id_def)

theorem missing_raster_isolated_witness:
  "path_isdir demo_world ''tiles''
   \<and> (\<forall>k. format_id demo_world (has_missing_id (sjoin in_box scenario_points demo_grid)) k
           = format_id demo_world False k)
   \<and> tile3 \<in> set (features demo_grid)
   \<and> (\<exists>p\<in>set (features scenario_points). in_box p (tile_geometry tile3))
   \<and> \<not> path_exists demo_world (raster_path_of demo_world ''tiles'' False (tile_id tile3))
   \<and> (\<forall>path cl. [] \<notin> set (dataset_sample demo_world path cl))
   \<and> (\<exists>res res'.
         snd (get demo_world in_box (init demo_world demo_grid scenario_points ''tiles'')) = Inr res
       \<and> snd (get (demo_world\<lparr>path_exists := (path_exists demo_world)(''tiles/3.gpkg'' := True)\<rparr>)
                in_box
                (init (demo_world\<lparr>path_exists := (path_exists demo_world)(''tiles/3.gpkg'' := True)\<rparr>)
                   demo_grid scenario_points ''tiles'')) = Inr res'
       \<and> Raster_not_found ''tiles/3.gpkg''
           \<in> set (fst (get demo_world in_box (init demo_world demo_grid scenario_points ''tiles'')))
       \<and> res ! 1 = None \<and> res ! 2 = None \<and> res ! 0 = res' ! 0)"
proof -
  have hf: "\<forall>k. format_id demo_world (has_missing_id (sjoin in_box scenario_points demo_grid)) k
           = format_id demo_world False k"
    by (simp add: demo_world_def)
  have h2: "tile3 \<in> set (features demo_grid)" by (simp add: tile3_def demo_grid_def)
  have h3: "\<exists>p\<in>set (features scenario_points). in_box p (tile_geometry tile3)"
    by (simp add: tile3_def scenario_points_def in_box_def)
  have p3: "raster_path_of demo_world ''tiles'' False (tile_id tile3) = ''tiles/3.gpkg''"
    by (simp add: raster_path_of_def demo_world_def tile3_def)
  have h4: "\<not> path_exists demo_world (raster_path_of demo_world ''tiles'' False (tile_id tile3))"
    unfolding p3 by (simp add: demo_world_def)
  have l: "0 < length (features scenario_points)" "1 < length (features scenario_points)"
    "2 < length (features scenario_points)"
    by (simp_all add: scenario_points_def)
  have m1: "\<forall>t\<in>set (matches in_box (features demo_grid) (features scenario_points ! 1)).
              \<not> path_exists demo_world (raster_path_of demo_world ''tiles'' False (tile_id t))"
    by (simp add: matches_def demo_grid_def scenario_points_def in_box_def raster_path_of_def
        demo_world_def)
  have m2: "\<forall>t\<in>set (matches in_box (features demo_grid) (features scenario_points ! 2)).
              \<not> path_exists demo_world (raster_path_of demo_world ''tiles'' False (tile_id t))"
    by (simp add: matches_def demo_grid_def scenario_points_def in_box_def raster_path_of_def
        demo_world_def)
  have m0: "\<forall>t\<in>set (matches in_box (features demo_grid) (features scenario_points ! 0)).
              raster_path_of demo_world ''tiles'' False (tile_id t)
              \<noteq> raster_path_of demo_world ''tiles'' False (tile_id tile3)"
    by (simp add: matches_def demo_grid_def scenario_points_def in_box_def raster_path_of_def
        demo_world_def tile3_def)
  from missing_raster_isolated [where w = demo_world and is_within = in_box and tm = tile3
      and srtm = demo_grid and cs = scenario_points and folder = "''tiles''",
      OF demo_isdir hf h2 h3 h4 demo_sampler_total, unfolded p3]
  obtain res res' where
    r: "snd (get demo_world in_box (init demo_world demo_grid scenario_points ''tiles'')) = Inr res"
    and r': "snd (get (demo_world\<lparr>path_exists := (path_exists demo_world)(''tiles/3.gpkg'' := True)\<rparr>)
                in_box
                (init (demo_world\<lparr>path_exists := (path_exists demo_world)(''tiles/3.gpkg'' := True)\<rparr>)
                   demo_grid scenario_points ''tiles'')) = Inr res'"
    and d: "Raster_not_found ''tiles/3.gpkg''
           \<in> set (fst (get demo_world in_box (init demo_world demo_grid scenario_points ''tiles'')))"
    and a: "\<forall>i<length (features scenario_points).
               (\<forall>t\<in>set (matches in_box (features demo_grid) (features scenario_points ! i)).
                   \<not> path_exists demo_world (raster_path_of demo_world ''tiles'' False (tile_id t)))
               \<longrightarrow> res ! i = None"
    and b: "\<forall>i<length (features scenario_points).
               (\<forall>t\<in>set (matches in_box (features demo_grid) (features scenario_points ! i)).
                   raster_path_of demo_world ''tiles'' False (tile_id t) \<noteq> ''tiles/3.gpkg'')
               \<longrightarrow> res ! i = res' ! i"
    by blast
  from a l(2) m1 have "res ! 1 = None" by blast
  moreover from a l(3) m2 have "res ! 2 = None" by blast
  moreover from b l(1) m0 [unfolded p3] have "res ! 0 = res' ! 0" by blast
  ultimately show ?thesis using demo_isdir hf h2 h3 h4 demo_sampler_total r r' d by blast
qed

section \<open>Rows of one point, calls of one run\<close>

lemma filter_le1_unique:
  "length (filter P xs) \<le> 1 \<Longrightarrow> j < length xs \<Longrightarrow> k < length xs \<Longrightarrow> P (xs ! j) \<Longrightarrow> P (xs ! k)
   \<Longrightarrow> j = k"
proof (induction xs arbitrary: j k)
  case Nil
  then show ?case by simp
next
  case (Cons a xs)
  show ?case
  proof (cases "P a")
    case True
    with Cons.prems(1) have none: "filter P xs = []" by simp
    have "j = 0"
    proof (cases j)
      case (Suc j')
      with Cons.prems(2,4) have "j' < length xs" "P (xs ! j')" by simp_all
      then have "xs ! j' \<in> set (filter P xs)" by simp
      with none show ?thesis by simp
    qed simp
    moreover have "k = 0"
    proof (cases k)
      case (Suc k')
      with Cons.prems(3,5) have "k' < length xs" "P (xs ! k')" by simp_all
      then have "xs ! k' \<in> set (filter P xs)" by simp
      with none show ?thesis by simp
    qed simp
    ultimately show ?thesis by simp
  next
    case False
    with Cons.prems(1) have le: "length (filter P xs) \<le> 1" by simp
    from False Cons.prems(4) obtain j' where j: "j = Suc j'" by (cases j) auto
    from False Cons.prems(5) obtain k' where k: "k = Suc k'" by (cases k) auto
    from Cons.IH [OF le, of j' k'] Cons.prems j k show ?thesis by simp
  qed
qed

lemma filter_index_join_point:
  "filter (\<lambda>r. original_index r = i) (join_point W ts ip)
   = (if fst ip = i then join_point W ts ip else [])"
  by (auto simp: join_point_def filter_empty_conv filter_id_conv split: list.splits)

lemma filter_index_enumerate:
  "filter (\<lambda>r. original_index r = i) (concat (map (join_point W ts) (enumerate n ps)))
   = (if n \<le> i \<and> i < n + length ps then join_point W ts (i, ps ! (i - n)) else [])"
proof (induction ps arbitrary: n)
  case Nil
  then show ?case by auto
next
  case (Cons p ps)
  have rest: "filter (\<lambda>r. original_index r = i) (concat (map (join_point W ts) (enumerate (Suc n) ps)))
        = (if Suc n \<le> i \<and> i < Suc n + length ps then join_point W ts (i, ps ! (i - Suc n)) else [])"
    by (rule Cons.IH)
  show ?case
  proof (cases "i = n")
    case True
    with rest have "filter (\<lambda>r. original_index r = i)
        (concat (map (join_point W ts) (enumerate (Suc n) ps))) = []" by simp
    with True show ?thesis by (simp add: filter_index_join_point)
  next
    case False
    have "filter (\<lambda>r. original_index r = i) (join_point W ts (n, p)) = []"
      using False by (simp add: filter_index_join_point)
    with rest False show ?thesis
      by (auto simp: Suc_diff_le nth_Cons')
  qed
qed

lemma filter_index_sjoin:
  "i < length (features L) \<Longrightarrow>
   filter (\<lambda>r. original_index r = i) (sjoin W L R) = join_point W (features R) (i, features L ! i)"
  by (simp add: sjoin_def filter_index_enumerate)

lemma filter_sampled_group_events:
  "filter is_sampled (concat (map (group_events w folder u) gs))
   = map (\<lambda>g. Sampled (raster_path_of w folder u (fst g)) (coords_list_of (map row_geometry (snd g))))
       (filter (\<lambda>g. path_exists w (raster_path_of w folder u (fst g))) gs)"
  by (induction gs) (simp_all add: group_events_def group_coords_def)

lemma group_nonempty:
  assumes "g \<in> set (groupby J)"
  shows "snd g \<noteq> []"
proof -
  from assms have eq: "snd g = filter (\<lambda>r. row_id r = Some (fst g)) J"
    and "Some (fst g) \<in> row_id ` set J" by (simp_all add: in_groupby)
  then obtain r where "r \<in> set J" "row_id r = Some (fst g)" by force
  then have "r \<in> set (filter (\<lambda>r. row_id r = Some (fst g)) J)" by simp
  then have "r \<in> set (snd g)" using eq by simp
  then show ?thesis by auto
qed

section \<open>One sampling per group\<close>

text \<open>
  The sampling calls of a run over a directory, for rasters that yield one array of at
  least one band per coordinate: no group is empty; there is exactly one call per group
  for whose key the path looked up exists, in the order of the groups, each with the
  coordinates of all rows of its group in the group's order; and the k-th value returned
  for a group is what the result holds at the original index of the group's k-th row, for
  every row whose point lies in one tile only.
\<close>

lemma sampler_calls_follow_groups:
  fixes w :: "('id::linorder, 'v) world"
  assumes "path_isdir w folder"
    and "\<forall>path cl. length (dataset_sample w path cl) = length cl
           \<and> [] \<notin> set (dataset_sample w path cl)"
  shows "\<exists>res. snd (get w is_within (init w srtm cs folder)) = Inr res
         \<and> (\<forall>g\<in>set (groupby (sjoin is_within cs srtm)). snd g \<noteq> [])
         \<and> filter is_sampled (fst (get w is_within (init w srtm cs folder)))
             = map (\<lambda>g. Sampled (raster_path_of w folder (has_missing_id (sjoin is_within cs srtm)) (fst g))
                                (coords_list_of (map row_geometry (snd g))))
                 (filter (\<lambda>g. path_exists w (raster_path_of w folder (has_missing_id (sjoin is_within cs srtm)) (fst g)))
                    (groupby (sjoin is_within cs srtm)))
         \<and> (\<forall>g\<in>set (groupby (sjoin is_within cs srtm)). \<forall>k<length (snd g).
               path_exists w (raster_path_of w folder (has_missing_id (sjoin is_within cs srtm)) (fst g))
               \<and> length (matches is_within (features srtm) (row_geometry (snd g ! k))) = 1
               \<longrightarrow> res ! original_index (snd g ! k)
                   = Some (hd (dataset_sample w (raster_path_of w folder (has_missing_id (sjoin is_within cs srtm)) (fst g))
                                 (coords_list_of (map row_geometry (snd g))) ! k)))"
proof -
  let ?self = "init w srtm cs folder"
  let ?J = "sjoin is_within cs srtm"
  let ?ws = "directory_writes w is_within ?self"
  let ?res = "fold store ?ws (replicate (length ?J) None)"
  have smp: "\<forall>path cl. [] \<notin> set (dataset_sample w path cl)" using assms(2) by blast
  have get: "get w is_within ?self = (directory_events w is_within ?self, Inr ?res)"
    using assms(1) process_directory_ok [OF smp, of is_within ?self] by (simp add: get_def)
  have dp: "directory_path w is_within ?self k = raster_path_of w folder (has_missing_id ?J) k"
    for k
    by (simp add: directory_path_def)
  have nonempty: "\<forall>g\<in>set (groupby ?J). snd g \<noteq> []" using group_nonempty by blast
  have calls: "filter is_sampled (directory_events w is_within ?self)
             = map (\<lambda>g. Sampled (raster_path_of w folder (has_missing_id (sjoin is_within cs srtm)) (fst g))
                                (coords_list_of (map row_geometry (snd g))))
                 (filter (\<lambda>g. path_exists w (raster_path_of w folder (has_missing_id (sjoin is_within cs srtm)) (fst g))) (groupby ?J))"
    by (simp add: directory_events_def Let_def unmatched_warning_def filter_sampled_group_events)
  have slot: "?res ! original_index (snd g ! k)
               = Some (hd (dataset_sample w (raster_path_of w folder (has_missing_id (sjoin is_within cs srtm)) (fst g))
                                 (coords_list_of (map row_geometry (snd g))) ! k))"
    if g: "g \<in> set (groupby ?J)" and k: "k < length (snd g)"
      and ex: "path_exists w (raster_path_of w folder (has_missing_id (sjoin is_within cs srtm)) (fst g))"
      and one: "length (matches is_within (features srtm) (row_geometry (snd g ! k))) = 1"
    for g k
  proof -
    let ?r = "snd g ! k"
    let ?i = "original_index ?r"
    let ?smp = "\<lambda>g. dataset_sample w (raster_path_of w folder (has_missing_id (sjoin is_within cs srtm)) (fst g)) (group_coords g)"
    from group_row [OF g k] have r: "?r \<in> set ?J" and rid: "row_id ?r = Some (fst g)"
      by simp_all
    from sjoin_row(1,2) [OF r] have i: "?i < length (features cs)"
      and geom: "row_geometry ?r = features cs ! ?i" by simp_all
    have iJ: "?i < length ?J" using i length_sjoin_ge [of cs is_within srtm] by simp
    have ks: "k < length (?smp g)" using k assms(2) by simp
    from directory_writes_I [of g is_within ?self w k] g ex k ks
    have "(?i, hd (?smp g ! k)) \<in> set ?ws" by (simp add: dp)
    then have "?i \<in> fst ` set ?ws" by (rule image_eqI [rotated]) simp
    from written_slot [OF this] obtain v where v: "map_of (rev ?ws) ?i = Some v"
      and iv: "(?i, v) \<in> set ?ws" by blast
    from directory_writes_D [OF iv] obtain g' j where g': "g' \<in> set (groupby ?J)"
      and j: "j < length (snd g')" and ij: "?i = original_index (snd g' ! j)"
      and vj: "v = hd (?smp g' ! j)"
      by (auto simp: dp)
    let ?r' = "snd g' ! j"
    from group_row [OF g' j] have r': "?r' \<in> set ?J" and rid': "row_id ?r' = Some (fst g')"
      by simp_all
    \<comment> \<open>the point has one row in the join\<close>
    have rows: "filter (\<lambda>r. original_index r = ?i) ?J
                = join_point is_within (features srtm) (?i, features cs ! ?i)"
      using i by (rule filter_index_sjoin)
    have one_row: "length (filter (\<lambda>r. original_index r = ?i) ?J) = 1"
      unfolding rows using one geom by (simp add: length_join_point)
    have "?r \<in> set (filter (\<lambda>r. original_index r = ?i) ?J)" using r by simp
    moreover have "?r' \<in> set (filter (\<lambda>r. original_index r = ?i) ?J)" using r' ij by simp
    ultimately have same_row: "?r' = ?r"
      using one_row by (cases "filter (\<lambda>r. original_index r = ?i) ?J") auto
    then have "fst g' = fst g" using rid rid' by simp
    moreover from g g' have "snd g = filter (\<lambda>r. row_id r = Some (fst g)) ?J"
      and "snd g' = filter (\<lambda>r. row_id r = Some (fst g')) ?J" by (simp_all add: in_groupby)
    ultimately have gg: "g' = g" by (simp add: prod_eq_iff)
    have "length (filter (\<lambda>r. original_index r = ?i) (snd g)) \<le> 1"
    proof -
      have "filter (\<lambda>r. original_index r = ?i) (snd g)
            = filter (\<lambda>r. row_id r = Some (fst g)) (filter (\<lambda>r. original_index r = ?i) ?J)"
        using g by (auto simp: in_groupby conj_commute)
      then show ?thesis using one_row length_filter_le [of "\<lambda>r. row_id r = Some (fst g)"
            "filter (\<lambda>r. original_index r = ?i) ?J"] by simp
    qed
    from filter_le1_unique [OF this, of j k] j k ij gg have "j = k" by simp
    with gg vj v iJ show ?thesis by (simp add: replicate_store_nth group_coords_def)
  qed
  from get nonempty calls slot show ?thesis
    by (intro exI [of _ ?res]) simp
qed

lemma demo_mixed_groups:
  "groupby (sjoin in_box mixed_points demo_grid)
   = [(1, [\<lparr>original_index = 1, row_geometry = Point (1/2) (1/2), row_id = Some 1\<rparr>]),
      (2, [\<lparr>original_index = 0, row_geometry = Point (3/2) (1/2), row_id = Some 2\<rparr>])]"
  by (simp add: sjoin_def join_point_def matches_def groupby_def demo_grid_def mixed_points_def
      in_box_def enumerate_eq_zip upt_rec)

text \<open>
  Claim C7 fails in the code for a grid whose identifiers are integers as soon as one
  point is unmatched. Here tiles 1 and 2 each have a group of one point and their rasters
  \<^verbatim>\<open>tiles/1.gpkg\<close> and \<^verbatim>\<open>tiles/2.gpkg\<close> exist, but the keys of the joined frame are
  floats: the loop looks for \<^verbatim>\<open>tiles/1.0.gpkg\<close> and \<^verbatim>\<open>tiles/2.0.gpkg\<close>, prints that
  they are not found, samples nothing and returns the sentinel for every point.
\<close>

theorem integer_ids_groups_not_sampled:
  "map fst (groupby (sjoin in_box mixed_points demo_grid)) = [1, 2]
   \<and> path_exists integer_id_world (raster_path_of integer_id_world ''tiles'' False 1)
   \<and> path_exists integer_id_world (raster_path_of integer_id_world ''tiles'' False 2)
   \<and> raster_path_of integer_id_world ''tiles'' False 1 = ''tiles/1.gpkg''
   \<and> get integer_id_world in_box (init integer_id_world demo_grid mixed_points ''tiles'')
     = ([Warning_unmatched, Raster_not_found ''tiles/1.0.gpkg'',
         Raster_not_found ''tiles/2.0.gpkg''],
        Inr [None, None, None])"
  by (simp add: get_def init_def process_directory_def sjoin_def join_point_def matches_def
      groupby_def demo_grid_def mixed_points_def in_box_def demo_world_def integer_id_world_def
      process_group_def raster_path_of_def coords_list_of_def value_from_src_def
      enumerate_eq_zip upt_rec has_missing_id_def)

section \<open>Empty input and overlapping tiles\<close>

lemma sjoin_no_points: "features cs = [] \<Longrightarrow> sjoin W cs srtm = []"
  by (simp add: sjoin_def)

text \<open>
  Claim C8, as stated, fails in single-raster mode: with no points at all, a missing
  path raises and an existing raster is still opened and sampled once, with an empty
  batch.
\<close>

theorem empty_input_single_raster_counterexample:
  "snd (get demo_world in_box (init demo_world demo_grid no_points ''gone.tif''))
     = Inl (FileNotFoundError ''Raster file not found: gone.tif'')
   \<and> snd (get demo_world in_box (init demo_world demo_grid no_points ''gone.tif'')) \<noteq> Inr []
   \<and> fst (get demo_world in_box (init demo_world demo_grid no_points ''dem.tif''))
     = [Sampled ''dem.tif'' []]"
  by (simp add: get_def init_def process_single_raster_def demo_world_def no_points_def
      coords_list_of_def Let_def)

text \<open>
  Claim C8, amended. In multi-tile mode an empty input gives the empty result with no
  sampling call and no warning.
\<close>

theorem empty_input_directory:
  fixes w :: "('id::linorder, 'v) world"
  assumes "path_isdir w folder" and "features cs = []"
  shows "get w is_within (init w srtm cs folder) = ([], Inr [])"
  using assms
  by (simp add: get_def process_directory_def sjoin_no_points groupby_def has_missing_id_def)

theorem empty_input_directory_witness:
  "path_isdir demo_world ''tiles'' \<and> features no_points = []
   \<and> get demo_world in_box (init demo_world demo_grid no_points ''tiles'') = ([], Inr [])"
proof -
  have e: "features no_points = []" by (simp add: no_points_def)
  from empty_input_directory [OF demo_isdir e, of in_box demo_grid] demo_isdir e
  show ?thesis by blast
qed

text \<open>
  Claim C5, as stated, fails: a point inside two overlapping tiles is sampled once from
  each of them, and the result for this single point has two entries.
\<close>

theorem overlapping_tiles_counterexample:
  "matches in_box (features overlap_grid) (Point (3/2) (1/2)) = features overlap_grid
   \<and> get demo_world in_box (init demo_world overlap_grid one_point ''tiles'')
     = ([Sampled ''tiles/1.gpkg'' [(3/2, 1/2)], Sampled ''tiles/2.gpkg'' [(3/2, 1/2)]],
        Inr [Some 200, None])
   \<and> length (features one_point) = 1"
  by (simp add: get_def init_def process_directory_def sjoin_def join_point_def matches_def
      groupby_def overlap_grid_def one_point_def in_box_def demo_world_def process_group_def
      raster_path_of_def coords_list_of_def value_from_src_def enumerate_eq_zip upt_rec has_missing_id_def)

text \<open>
  Claim C5, amended. The join makes no choice between tiles: the rows of a point are one
  per tile that contains it, in the order of the grid (one row without identifier when
  there is none). When no point lies within more than one tile, every point has exactly
  one row, and every result the run returns (it returns one when the sampled arrays are
  not empty) is as long as the input.
\<close>

theorem no_tie_break_between_tiles:
  fixes w :: "('id::linorder, 'v) world"
  assumes "path_isdir w folder"
  shows "(\<forall>i<length (features cs).
            map row_id (filter (\<lambda>r. original_index r = i) (sjoin is_within cs srtm))
            = (if matches is_within (features srtm) (features cs ! i) = [] then [None]
               else map (\<lambda>t. Some (tile_id t)) (matches is_within (features srtm) (features cs ! i))))
       \<and> ((\<forall>p\<in>set (features cs). length (matches is_within (features srtm) p) \<le> 1)
          \<longrightarrow> (\<forall>i<length (features cs).
                 length (filter (\<lambda>r. original_index r = i) (sjoin is_within cs srtm)) = 1)
            \<and> (\<forall>res. snd (get w is_within (init w srtm cs folder)) = Inr res
                 \<longrightarrow> length res = length (features cs))
            \<and> ((\<forall>path cl. [] \<notin> set (dataset_sample w path cl))
                 \<longrightarrow> (\<exists>res. snd (get w is_within (init w srtm cs folder)) = Inr res)))"
proof -
  let ?self = "init w srtm cs folder"
  let ?J = "sjoin is_within cs srtm"
  have get: "get w is_within ?self = process_directory w is_within ?self"
    using assms by (simp add: get_def)
  have rows: "\<forall>i<length (features cs).
            map row_id (filter (\<lambda>r. original_index r = i) ?J)
            = (if matches is_within (features srtm) (features cs ! i) = [] then [None]
               else map (\<lambda>t. Some (tile_id t)) (matches is_within (features srtm) (features cs ! i)))"
    by (auto simp: filter_index_sjoin join_point_def comp_def split: list.splits)
  have single: "(\<forall>i<length (features cs). length (filter (\<lambda>r. original_index r = i) ?J) = 1)
            \<and> (\<forall>res. snd (get w is_within ?self) = Inr res \<longrightarrow> length res = length (features cs))
            \<and> ((\<forall>path cl. [] \<notin> set (dataset_sample w path cl))
                 \<longrightarrow> (\<exists>res. snd (get w is_within ?self) = Inr res))"
    if le: "\<forall>p\<in>set (features cs). length (matches is_within (features srtm) p) \<le> 1"
  proof (intro conjI allI impI)
    fix i assume i: "i < length (features cs)"
    then have "features cs ! i \<in> set (features cs)" by simp
    with le have "length (matches is_within (features srtm) (features cs ! i)) \<le> 1" by blast
    then show "length (filter (\<lambda>r. original_index r = i) ?J) = 1"
      using i by (simp add: filter_index_sjoin length_join_point)
  next
    fix res assume "snd (get w is_within ?self) = Inr res"
    with get have "process_directory w is_within ?self
                   = (fst (process_directory w is_within ?self), Inr res)"
      by (metis prod.collapse)
    from process_directory_Inr(2) [OF this] length_sjoin_eq [OF le]
    show "length res = length (features cs)" by simp
  next
    assume "\<forall>path cl. [] \<notin> set (dataset_sample w path cl)"
    from process_directory_ok [OF this, of is_within ?self] get
    show "\<exists>res. snd (get w is_within ?self) = Inr res" by simp
  qed
  from rows single show ?thesis by blast
qed

theorem no_tie_break_between_tiles_witness:
  "path_isdir demo_world ''tiles''
   \<and> map row_id (filter (\<lambda>r. original_index r = 0) (sjoin in_box one_point overlap_grid))
       = [Some 1, Some 2]
   \<and> length (matches in_box (features demo_grid) (Point (3/2) (1/2))) = 1
   \<and> length (matches in_box (features demo_grid) (Point (1/2) (1/2))) = 1
   \<and> (\<exists>res. snd (get demo_world in_box (init demo_world demo_grid two_points ''tiles'')) = Inr res
         \<and> length res = 2)"
proof -
  have m: "matches in_box (features overlap_grid) (features one_point ! 0) = features overlap_grid"
    by (simp add: matches_def overlap_grid_def one_point_def in_box_def)
  have l: "0 < length (features one_point)" by (simp add: one_point_def)
  from no_tie_break_between_tiles [OF demo_isdir, of one_point in_box overlap_grid] l
  have "map row_id (filter (\<lambda>r. original_index r = 0) (sjoin in_box one_point overlap_grid))
        = (if matches in_box (features overlap_grid) (features one_point ! 0) = [] then [None]
           else map (\<lambda>t. Some (tile_id t)) (matches in_box (features overlap_grid) (features one_point ! 0)))"
    by blast
  then have a: "map row_id (filter (\<lambda>r. original_index r = 0) (sjoin in_box one_point overlap_grid))
       = [Some 1, Some 2]"
    unfolding m by (simp add: overlap_grid_def)
  have le: "\<forall>p\<in>set (features two_points). length (matches in_box (features demo_grid) p) \<le> 1"
    using demo_two_points_one_tile by simp
  have m1: "length (matches in_box (features demo_grid) (Point (3/2) (1/2))) = 1"
    and m2: "length (matches in_box (features demo_grid) (Point (1/2) (1/2))) = 1"
    using demo_two_points_one_tile by (simp_all add: two_points_def)
  from no_tie_break_between_tiles [OF demo_isdir, of two_points in_box demo_grid] le
    demo_sampler_total
  obtain res where "snd (get demo_world in_box (init demo_world demo_grid two_points ''tiles'')) = Inr res"
    and "length res = length (features two_points)" by blast
  then have "\<exists>res. snd (get demo_world in_box (init demo_world demo_grid two_points ''tiles'')) = Inr res
         \<and> length res = 2" by (simp add: two_points_def)
  with demo_isdir a m1 m2 show ?thesis by blast
qed

section \<open>Integrity and reference frames\<close>

text \<open>
  Claim C4, as stated, fails: with a point inside two tiles its index is written twice,
  and the slots past the input are never written, yet the run returns a list.
\<close>

theorem double_write_counterexample:
  "directory_writes demo_world in_box (init demo_world overlap_grid two_points_then_nothing ''tiles'')
     = [(0, 100), (0, 200)]
   \<and> assign_values [(0, 100), (0, 200)] [None, None, None] = Inr [Some (200::int), None, None]
   \<and> snd (get demo_world in_box (init demo_world overlap_grid two_points_then_nothing ''tiles''))
     = Inr [Some 200, None, None]"
  by (simp add: get_def init_def process_directory_def sjoin_def join_point_def matches_def
      groupby_def overlap_grid_def two_points_then_nothing_def in_box_def demo_world_def
      process_group_def raster_path_of_def coords_list_of_def value_from_src_def
      enumerate_eq_zip upt_rec has_missing_id_def directory_writes_def group_writes_def group_coords_def)

text \<open>
  Claim C4, amended. The assembly checks nothing: the assignments of a group, whatever
  indices they repeat or leave out, give back the list with the last value written at
  each written index and the old content elsewhere; and a run in multi-tile mode whose
  sampled arrays are not empty returns a list with one slot per joined row.
\<close>

theorem assembly_without_integrity_check:
  fixes w :: "('id::linorder, 'v) world"
  assumes "path_isdir w folder"
    and "\<forall>path cl. [] \<notin> set (dataset_sample w path cl)"
    and "\<forall>i\<in>fst ` set ws. i < length el"
  shows "(\<exists>el'. assign_values ws el = Inr el' \<and> length el' = length el
            \<and> (\<forall>i<length el. el' ! i = (case map_of (rev ws) i of None \<Rightarrow> el ! i | Some v \<Rightarrow> Some v)))
       \<and> (\<exists>res. snd (get w is_within (init w srtm cs folder)) = Inr res
            \<and> length res = length (sjoin is_within cs srtm))"
proof -
  have "assign_values ws el = Inr (fold store ws el)"
    using assms(3) by (rule assign_values_ok)
  then have a: "\<exists>el'. assign_values ws el = Inr el' \<and> length el' = length el
            \<and> (\<forall>i<length el. el' ! i = (case map_of (rev ws) i of None \<Rightarrow> el ! i | Some v \<Rightarrow> Some v))"
    by (simp add: fold_store_nth)
  have b: "\<exists>res. snd (get w is_within (init w srtm cs folder)) = Inr res
            \<and> length res = length (sjoin is_within cs srtm)"
    using assms(1) process_directory_ok [OF assms(2), of is_within "init w srtm cs folder"]
    by (simp add: get_def)
  from a b show ?thesis by blast
qed

theorem assembly_without_integrity_check_witness:
  "path_isdir demo_world ''tiles''
   \<and> (\<forall>path cl. [] \<notin> set (dataset_sample demo_world path cl))
   \<and> fst ` set [(0::nat, 7::int), (0, 8)] = {0} \<and> 0 < length [None :: int option, None]
   \<and> (\<exists>el'. assign_values [(0, 7), (0, 8)] [None, None] = Inr el' \<and> length el' = 2
         \<and> el' ! 0 = Some (8::int) \<and> el' ! 1 = None)
   \<and> (\<exists>res. snd (get demo_world in_box (init demo_world overlap_grid one_point ''tiles'')) = Inr res
         \<and> length res = length (sjoin in_box one_point overlap_grid))"
proof -
  have r: "\<forall>i\<in>fst ` set [(0::nat, 7::int), (0, 8)]. i < length [None :: int option, None]"
    by simp
  from assembly_without_integrity_check [OF demo_isdir demo_sampler_total r,
      of in_box overlap_grid one_point]
  obtain el' where e: "assign_values [(0, 7), (0, 8)] [None, None] = Inr el'"
    and l: "length el' = length [None :: int option, None]"
    and n: "\<forall>i<length [None :: int option, None].
              el' ! i = (case map_of (rev [(0::nat, 7::int), (0, 8)]) i of
                           None \<Rightarrow> [None, None] ! i | Some v \<Rightarrow> Some v)"
    and g: "\<exists>res. snd (get demo_world in_box (init demo_world overlap_grid one_point ''tiles'')) = Inr res
         \<and> length res = length (sjoin in_box one_point overlap_grid)"
    by blast
  from n have "el' ! 0 = Some 8" by simp
  moreover from n have "el' ! 1 = None" by simp
  ultimately have "\<exists>el'. assign_values [(0, 7), (0, 8)] [None, None] = Inr el' \<and> length el' = 2
         \<and> el' ! 0 = Some (8::int) \<and> el' ! 1 = None"
    using e l by simp
  with demo_isdir demo_sampler_total g show ?thesis by simp
qed

text \<open>
  Claim C6, as stated, fails: a grid tagged with a projected frame and points tagged
  with EPSG:4326 are matched all the same, and the run returns elevations.
\<close>

theorem frame_mismatch_counterexample:
  "crs utm_grid = 32723 \<and> crs two_points = 4326
   \<and> get demo_world in_box (init demo_world utm_grid two_points ''tiles'')
     = ([Sampled ''tiles/1.gpkg'' [(1/2, 1/2)], Sampled ''tiles/2.gpkg'' [(3/2, 1/2)]],
        Inr [Some 200, Some 100])"
  by (simp add: get_def init_def process_directory_def sjoin_def join_point_def matches_def
      groupby_def utm_grid_def demo_grid_def two_points_def in_box_def demo_world_def
      process_group_def raster_path_of_def coords_list_of_def value_from_src_def
      enumerate_eq_zip upt_rec has_missing_id_def)

text \<open>
  Claim C6, amended. The resolver never compares reference frames: what \<open>get\<close> returns
  and emits is the same whatever tags its two inputs carry. Frames are aligned by the
  loader alone, and only in part: \<^verbatim>\<open>to_crs\<close> with \<^verbatim>\<open>"degress"\<close> reprojects vector data
  in a frame that is not geographic to its \<^verbatim>\<open>crs_degress\<close> and gives back data in any
  geographic frame as it is.
\<close>

theorem frames_never_compared:
  fixes w :: "('id::linorder, 'v) world"
  shows "get w is_within (init w (srtm\<lparr>crs := a\<rparr>) (cs\<lparr>crs := b\<rparr>) folder)
         = get w is_within (init w srtm cs folder)
       \<and> (lg_type self = Some ''vector'' \<and> \<not> geographic (crs df)
            \<longrightarrow> to_crs geographic estimate_utm_crs reproject self df ''degress''
                = reproject (crs_degress self) df)
       \<and> (geographic (crs df)
            \<longrightarrow> to_crs geographic estimate_utm_crs reproject self df ''degress'' = df)"
  by (simp add: get_def init_def process_directory_def process_single_raster_def sjoin_def
      to_crs_def Let_def)

theorem frames_never_compared_witness:
  "get demo_world in_box (init demo_world (demo_grid\<lparr>crs := 32723\<rparr>) (two_points\<lparr>crs := 4326\<rparr>) ''tiles'')
     = get demo_world in_box (init demo_world demo_grid two_points ''tiles'')
   \<and> to_crs (\<lambda>c. c = 4326 \<or> c = 4269) (\<lambda>f. 32723) (\<lambda>c f. f\<lparr>crs := c\<rparr>)
        \<lparr>lg_type = Some ''vector'', file_path = ''SRTM.gpkg'', crs_degress = 4326\<rparr>
        (demo_grid\<lparr>crs := 32723\<rparr>) ''degress''
     = demo_grid\<lparr>crs := 4326\<rparr>
   \<and> to_crs (\<lambda>c. c = 4326 \<or> c = 4269) (\<lambda>f. 32723) (\<lambda>c f. f\<lparr>crs := c\<rparr>)
        \<lparr>lg_type = Some ''vector'', file_path = ''SRTM.gpkg'', crs_degress = 4326\<rparr>
        (demo_grid\<lparr>crs := 4269\<rparr>) ''degress''
     = demo_grid\<lparr>crs := 4269\<rparr>"
proof -
  let ?geo = "\<lambda>c::nat. c = 4326 \<or> c = 4269"
  let ?self = "\<lparr>lg_type = Some ''vector'', file_path = ''SRTM.gpkg'', crs_degress = 4326\<rparr>"
  note t1 = frames_never_compared [where w = demo_world and is_within = in_box
      and srtm = demo_grid and cs = two_points and folder = "''tiles''" and a = 32723 and b = 4326
      and self = ?self and df = "demo_grid\<lparr>crs := 32723\<rparr>" and geographic = ?geo
      and estimate_utm_crs = "\<lambda>f. 32723" and reproject = "\<lambda>c f. f\<lparr>crs := c\<rparr>"]
  note t2 = frames_never_compared [where w = demo_world and is_within = in_box
      and srtm = demo_grid and cs = two_points and folder = "''tiles''" and a = 32723 and b = 4326
      and self = ?self and df = "demo_grid\<lparr>crs := 4269\<rparr>" and geographic = ?geo
      and estimate_utm_crs = "\<lambda>f. 32723" and reproject = "\<lambda>c f. f\<lparr>crs := c\<rparr>"]
  from t1 have "to_crs ?geo (\<lambda>f. 32723) (\<lambda>c f. f\<lparr>crs := c\<rparr>) ?self (demo_grid\<lparr>crs := 32723\<rparr>) ''degress''
     = demo_grid\<lparr>crs := 4326\<rparr>" by simp
  moreover from t2 have "to_crs ?geo (\<lambda>f. 32723) (\<lambda>c f. f\<lparr>crs := c\<rparr>) ?self (demo_grid\<lparr>crs := 4269\<rparr>) ''degress''
     = demo_grid\<lparr>crs := 4269\<rparr>" by simp
  ultimately show ?thesis using t1 by simp
qed

end
